theory Spec2Isabelle
  imports Main
begin

section \<open>JavaScript numbers and strings used by the token codec\<close>

text \<open>
  The durations handled by \<open>parseDuration\<close> are JavaScript numbers. The only values that
  occur are integers and \<open>NaN\<close> (\<open>parseInt\<close> of a string without leading digits, and every
  product with it). Integers are modelled by \<open>int\<close>; this is exact as long as the magnitude
  stays at most \<open>2 ^ 53\<close>, the range in which a double represents every integer.
\<close>

datatype jsnum = Num int | NaN

definition js_mul :: "jsnum \<Rightarrow> int \<Rightarrow> jsnum" where
  "js_mul v k = (case v of NaN \<Rightarrow> NaN | Num n \<Rightarrow> Num (n * k))"

definition is_digit :: "char \<Rightarrow> bool" where
  "is_digit c = (c \<in> set ''0123456789'')"

definition digit_val :: "char \<Rightarrow> int" where
  "digit_val c = int (of_char c) - 48"

definition digits_val :: "string \<Rightarrow> int" where
  "digits_val ds = foldl (\<lambda>a c. 10 * a + digit_val c) 0 ds"

text \<open>
  White space that \<open>parseInt\<close> skips, as far as it is representable in one-byte characters:
  TAB, LF, VT, FF, CR, SPACE and NBSP.
\<close>

definition is_js_space :: "char \<Rightarrow> bool" where
  "is_js_space c = ((of_char c :: nat) \<in> set [9, 10, 11, 12, 13, 32, 160])"

text \<open>
  \<open>parseInt(str, 10)\<close>: skip leading white space, read an optional sign, take the longest
  prefix of decimal digits; no digit gives \<open>NaN\<close>. Radix 10 strips no \<open>0x\<close> prefix.
\<close>

definition parseInt10 :: "string \<Rightarrow> jsnum" where
  "parseInt10 str =
     (let s1 = dropWhile is_js_space str;
          sgn = (case s1 of c # _ \<Rightarrow> (if c = CHR ''-'' then - 1 else 1) | [] \<Rightarrow> (1::int));
          s2 = (case s1 of c # r \<Rightarrow> (if c = CHR ''-'' \<or> c = CHR ''+'' then r else s1) | [] \<Rightarrow> s1);
          z = takeWhile is_digit s2
      in if z = [] then NaN else Num (sgn * digits_val z))"

text \<open>\<open>duration.slice(-1)\<close>: the last character as a string, empty for the empty string.\<close>

definition slice_last :: "string \<Rightarrow> string" where
  "slice_last str = (if str = [] then [] else [last str])"

text \<open>\<open>duration.slice(0, -1)\<close>: everything but the last character.\<close>

definition slice_init :: "string \<Rightarrow> string" where
  "slice_init str = butlast str"

definition parseDuration :: "string \<Rightarrow> jsnum" where
  "parseDuration duration =
     (let unit = slice_last duration;
          val = parseInt10 (slice_init duration)
      in if unit = ''s'' then val
         else if unit = ''m'' then js_mul val 60
         else if unit = ''h'' then js_mul (js_mul val 60) 60
         else if unit = ''d'' then js_mul (js_mul (js_mul val 24) 60) 60
         else Num (7 * 24 * 60 * 60))"

section \<open>Environment and token codec (\<open>config/env.ts\<close>, \<open>utils/jwt.ts\<close>)\<close>

text \<open>
  The parsed environment. \<open>envSchema\<close> demands at least 32 characters of both secrets and
  lets the two durations be any string (defaults \<open>15m\<close> and \<open>7d\<close>); the process exits when the
  schema is not met, so the code only ever runs under \<open>valid_env\<close>.
\<close>

record Env =
  JWT_ACCESS_SECRET :: string
  JWT_REFRESH_SECRET :: string
  JWT_ACCESS_EXPIRES_IN :: string
  JWT_REFRESH_EXPIRES_IN :: string

definition valid_env :: "Env \<Rightarrow> bool" where
  "valid_env env = (32 \<le> length (JWT_ACCESS_SECRET env) \<and> 32 \<le> length (JWT_REFRESH_SECRET env))"

datatype token_type = Access | Refresh

record JwtPayload =
  userId :: string
  email :: string
  type :: token_type

text \<open>
  A token string. The signing library is outside the repository; its HMAC signature is
  modelled symbolically: a signed token records the secret it was signed with, the payload
  and the two claims the library adds, \<open>iat\<close> and \<open>exp\<close> (both in whole seconds). Any other
  string is \<open>Opaque\<close>. Signing is deterministic: the same payload signed with the same secret
  in the same clock second is the same string.
\<close>

datatype jwt = Jwt string JwtPayload int int | Opaque string

text \<open>
  What an operation can throw: the service's own \<open>AppError(message, statusCode)\<close>, an error
  of the database client, an error of the signing library.
\<close>

datatype error =
    AppError string nat
  | PrismaError string
  | JwtError

text \<open>
  \<open>jwt.sign(payload, secret, {expiresIn})\<close> at clock reading \<open>now\<close> (milliseconds): \<open>iat\<close> is
  \<open>Math.floor(now / 1000)\<close> and \<open>exp\<close> is \<open>iat + expiresIn\<close>. The library throws when the secret
  is empty or \<open>expiresIn\<close> is not an integer.
\<close>

definition jwt_sign :: "JwtPayload \<Rightarrow> string \<Rightarrow> jsnum \<Rightarrow> int \<Rightarrow> error + jwt" where
  "jwt_sign payload secret expiresIn now =
     (if secret = [] then Inl JwtError
      else case expiresIn of
             NaN \<Rightarrow> Inl JwtError
           | Num n \<Rightarrow> Inr (Jwt secret payload (now div 1000) (now div 1000 + n)))"

text \<open>
  \<open>jwt.verify(token, secret)\<close> at clock reading \<open>now\<close>: \<open>None\<close> stands for every exception
  (malformed token, wrong signature, \<open>Math.floor(now / 1000) >= exp\<close>).
\<close>

definition jwt_verify :: "jwt \<Rightarrow> string \<Rightarrow> int \<Rightarrow> JwtPayload option" where
  "jwt_verify tok secret now =
     (case tok of
        Opaque _ \<Rightarrow> None
      | Jwt k payload i e \<Rightarrow>
          if secret = [] \<or> k \<noteq> secret then None
          else if e \<le> now div 1000 then None
          else Some payload)"

definition generateAccessToken :: "Env \<Rightarrow> string \<Rightarrow> string \<Rightarrow> int \<Rightarrow> error + jwt" where
  "generateAccessToken env uid mail now =
     jwt_sign \<lparr>userId = uid, email = mail, type = Access\<rparr>
       (JWT_ACCESS_SECRET env) (parseDuration (JWT_ACCESS_EXPIRES_IN env)) now"

definition generateRefreshToken :: "Env \<Rightarrow> string \<Rightarrow> string \<Rightarrow> int \<Rightarrow> error + jwt" where
  "generateRefreshToken env uid mail now =
     jwt_sign \<lparr>userId = uid, email = mail, type = Refresh\<rparr>
       (JWT_REFRESH_SECRET env) (parseDuration (JWT_REFRESH_EXPIRES_IN env)) now"

record TokenPair =
  accessToken :: jwt
  refreshToken :: jwt

definition generateTokenPair :: "Env \<Rightarrow> string \<Rightarrow> string \<Rightarrow> int \<Rightarrow> error + TokenPair" where
  "generateTokenPair env uid mail now =
     (case generateAccessToken env uid mail now of
        Inl e \<Rightarrow> Inl e
      | Inr a \<Rightarrow>
          (case generateRefreshToken env uid mail now of
             Inl e \<Rightarrow> Inl e
           | Inr r \<Rightarrow> Inr \<lparr>accessToken = a, refreshToken = r\<rparr>))"

definition verifyAccessToken :: "Env \<Rightarrow> jwt \<Rightarrow> int \<Rightarrow> JwtPayload option" where
  "verifyAccessToken env tok now =
     (case jwt_verify tok (JWT_ACCESS_SECRET env) now of
        None \<Rightarrow> None
      | Some payload \<Rightarrow> if type payload \<noteq> Access then None else Some payload)"

definition verifyRefreshToken :: "Env \<Rightarrow> jwt \<Rightarrow> int \<Rightarrow> JwtPayload option" where
  "verifyRefreshToken env tok now =
     (case jwt_verify tok (JWT_REFRESH_SECRET env) now of
        None \<Rightarrow> None
      | Some payload \<Rightarrow> if type payload \<noteq> Refresh then None else Some payload)"

text \<open>\<open>getExpirationDate\<close>: a date in milliseconds; \<open>None\<close> is the invalid date of a \<open>NaN\<close>.\<close>

definition getExpirationDate :: "string \<Rightarrow> int \<Rightarrow> int option" where
  "getExpirationDate duration now =
     (case parseDuration duration of NaN \<Rightarrow> None | Num seconds \<Rightarrow> Some (now + seconds * 1000))"

section \<open>Rate limiter (\<open>middleware/rateLimit.ts\<close>)\<close>

record RateLimitEntry =
  count :: int
  resetTime :: int

text \<open>The module-level \<open>store\<close>: one map from key to entry, shared by every limiter the
  factory creates.\<close>

type_synonym rl_store = "string \<rightharpoonup> RateLimitEntry"

text \<open>Of a request the limiter reads only \<open>req.ip\<close>.\<close>

record Request =
  ip :: "string option"

record RateLimitOptions =
  windowMs :: "int option"
  maxRequests :: "int option"
  message :: "string option"
  keyGenerator :: "(Request \<Rightarrow> string) option"

text \<open>The default key generator, \<open>req.ip || "unknown"\<close>: an absent or empty address is falsy.\<close>

definition default_keyGenerator :: "Request \<Rightarrow> string" where
  "default_keyGenerator req =
     (case ip req of None \<Rightarrow> ''unknown'' | Some a \<Rightarrow> if a = [] then ''unknown'' else a)"

text \<open>The headers set on the response and what the middleware does next.\<close>

record RateLimitHeaders =
  x_ratelimit_limit :: int
  x_ratelimit_remaining :: int
  x_ratelimit_reset :: int
  retry_after :: "int option"

datatype rl_outcome = Next | SendError string nat

text \<open>\<open>Math.ceil(a / b)\<close> for integers \<open>a\<close> and positive \<open>b\<close>.\<close>

definition js_ceil_div :: "int \<Rightarrow> int \<Rightarrow> int" where
  "js_ceil_div a b = - ((- a) div b)"

text \<open>
  The middleware returned by \<open>rateLimit(options)\<close>, run on a request at clock reading \<open>now\<close>
  against the shared store. It returns the store after the call, the headers and the outcome.
\<close>

definition rateLimit ::
  "RateLimitOptions \<Rightarrow> Request \<Rightarrow> int \<Rightarrow> rl_store \<Rightarrow> rl_store \<times> RateLimitHeaders \<times> rl_outcome" where
  "rateLimit options req now store =
     (let window = (case windowMs options of None \<Rightarrow> 60 * 1000 | Some w \<Rightarrow> w);
          maxReq = (case maxRequests options of None \<Rightarrow> 100 | Some m \<Rightarrow> m);
          msg = (case message options of
                   None \<Rightarrow> ''Too many requests, please try again later'' | Some m \<Rightarrow> m);
          keyGen = (case keyGenerator options of None \<Rightarrow> default_keyGenerator | Some g \<Rightarrow> g);
          key = keyGen req;
          entry = (case store key of
                     None \<Rightarrow> \<lparr>count = 1, resetTime = now + window\<rparr>
                   | Some e \<Rightarrow>
                       if resetTime e \<le> now then \<lparr>count = 1, resetTime = now + window\<rparr>
                       else e\<lparr>count := count e + 1\<rparr>);
          store' = store(key \<mapsto> entry);
          hdrs = \<lparr>x_ratelimit_limit = maxReq,
                  x_ratelimit_remaining = max 0 (maxReq - count entry),
                  x_ratelimit_reset = resetTime entry,
                  retry_after = None\<rparr>
      in if maxReq < count entry
         then (store', hdrs\<lparr>retry_after := Some (js_ceil_div (resetTime entry - now) 1000)\<rparr>,
               SendError msg 429)
         else (store', hdrs, Next))"

text \<open>The periodic sweep each limiter installs with \<open>setInterval\<close>.\<close>

definition cleanup :: "int \<Rightarrow> rl_store \<Rightarrow> rl_store" where
  "cleanup now store =
     (\<lambda>key. case store key of
               None \<Rightarrow> None
             | Some e \<Rightarrow> if resetTime e \<le> now then None else Some e)"

definition authRateLimiter :: "Request \<Rightarrow> int \<Rightarrow> rl_store \<Rightarrow> rl_store \<times> RateLimitHeaders \<times> rl_outcome" where
  "authRateLimiter =
     rateLimit \<lparr>windowMs = Some (15 * 60 * 1000), maxRequests = Some 10,
                message = Some ''Too many authentication attempts, please try again in 15 minutes'',
                keyGenerator = None\<rparr>"

definition apiRateLimiter :: "Request \<Rightarrow> int \<Rightarrow> rl_store \<Rightarrow> rl_store \<times> RateLimitHeaders \<times> rl_outcome" where
  "apiRateLimiter =
     rateLimit \<lparr>windowMs = Some (60 * 1000), maxRequests = Some 100,
                message = None, keyGenerator = None\<rparr>"

text \<open>
  The middleware chain in front of the handlers of \<open>POST /api/auth/register\<close>, \<open>/login\<close> and
  \<open>/google\<close>: \<open>index.ts\<close> mounts \<open>apiRateLimiter\<close> on \<open>/api\<close> before the routes, and the auth
  router puts \<open>authRateLimiter\<close> in front of each of the three handlers. The result names the
  limiter that rejected the request, if one did.
\<close>

datatype chain_outcome = ReachedHandler | RejectedByApi rl_outcome RateLimitHeaders
  | RejectedByAuth rl_outcome RateLimitHeaders

definition auth_route_chain :: "Request \<Rightarrow> int \<Rightarrow> rl_store \<Rightarrow> rl_store \<times> chain_outcome" where
  "auth_route_chain req now store =
     (case apiRateLimiter req now store of
        (s1, h1, Next) \<Rightarrow>
          (case authRateLimiter req now s1 of
             (s2, h2, Next) \<Rightarrow> (s2, ReachedHandler)
           | (s2, h2, SendError m c) \<Rightarrow> (s2, RejectedByAuth (SendError m c) h2))
      | (s1, h1, SendError m c) \<Rightarrow> (s1, RejectedByApi (SendError m c) h1))"

text \<open>A sequence of requests, each with its clock reading, served one after the other.\<close>

fun serve :: "('r \<Rightarrow> int \<Rightarrow> rl_store \<Rightarrow> rl_store \<times> 'o) \<Rightarrow> rl_store \<Rightarrow> ('r \<times> int) list \<Rightarrow> 'o list" where
  "serve mw store [] = []"
| "serve mw store ((req, now) # rest) =
     (case mw req now store of (store', out) \<Rightarrow> out # serve mw store' rest)"

section \<open>Account and session store\<close>

text \<open>
  The two tables the session manager works on, with the columns the service reads and
  writes. Dates are clock readings in milliseconds; \<open>createdAt\<close> of a new row is the time of
  the insert. \<open>revokedAt\<close> and \<open>passwordHash\<close> are nullable columns. The store enforces a
  unique \<open>id\<close> on both tables, a unique \<open>email\<close> on users and a unique \<open>token\<close> on refresh
  tokens (the columns the service looks rows up by with \<open>findUnique\<close>). An update by id is
  only ever made to a row the same call has just read.
\<close>

record User =
  u_id :: string
  u_email :: string
  passwordHash :: "string option"
  name :: "string option"
  status :: string
  authProvider :: "string option"
  u_createdAt :: int
  lastLoginAt :: "int option"

record RefreshToken =
  rt_id :: string
  token :: jwt
  rt_userId :: string
  createdAt :: int
  expiresAt :: int
  revokedAt :: "int option"
  userAgent :: "string option"
  ipAddress :: "string option"

record db =
  user_tbl :: "User list"
  refreshToken_tbl :: "RefreshToken list"

definition user_findUnique_email :: "db \<Rightarrow> string \<Rightarrow> User option" where
  "user_findUnique_email s mail = find (\<lambda>u. u_email u = mail) (user_tbl s)"

definition user_findUnique_id :: "db \<Rightarrow> string \<Rightarrow> User option" where
  "user_findUnique_id s uid = find (\<lambda>u. u_id u = uid) (user_tbl s)"

definition refreshToken_findUnique :: "db \<Rightarrow> jwt \<Rightarrow> RefreshToken option" where
  "refreshToken_findUnique s tok = find (\<lambda>r. token r = tok) (refreshToken_tbl s)"

text \<open>\<open>prisma.user.update({where: {id}, data})\<close>, with the change to apply as a function.\<close>

definition update_user :: "db \<Rightarrow> string \<Rightarrow> (User \<Rightarrow> User) \<Rightarrow> db" where
  "update_user s uid f = s\<lparr>user_tbl := map (\<lambda>u. if u_id u = uid then f u else u) (user_tbl s)\<rparr>"

text \<open>\<open>prisma.refreshToken.update({where: {id}, data: {revokedAt: new Date()}})\<close>.\<close>

definition refreshToken_revoke :: "db \<Rightarrow> string \<Rightarrow> int \<Rightarrow> db" where
  "refreshToken_revoke s rid now =
     s\<lparr>refreshToken_tbl :=
         map (\<lambda>r. if rt_id r = rid then r\<lparr>revokedAt := Some now\<rparr> else r) (refreshToken_tbl s)\<rparr>"

text \<open>\<open>prisma.refreshToken.delete({where: {id}})\<close> and \<open>deleteMany({where: {id: {in: ids}}})\<close>.\<close>

definition refreshToken_deleteMany :: "db \<Rightarrow> string list \<Rightarrow> db" where
  "refreshToken_deleteMany s ids =
     s\<lparr>refreshToken_tbl := filter (\<lambda>r. rt_id r \<notin> set ids) (refreshToken_tbl s)\<rparr>"

text \<open>
  \<open>findMany({where: {userId, revokedAt: null}, orderBy: {createdAt: "desc"}, skip: 10})\<close>.
  Rows with equal \<open>createdAt\<close> come in an order the database chooses; the model puts the row
  inserted later first.
\<close>

definition refreshToken_beyond_cap :: "db \<Rightarrow> string \<Rightarrow> RefreshToken list" where
  "refreshToken_beyond_cap s uid =
     drop 10 (rev (sort_key createdAt
        (filter (\<lambda>r. rt_userId r = uid \<and> revokedAt r = None) (refreshToken_tbl s))))"

text \<open>
  \<open>storeRefreshToken\<close>. \<open>rid\<close> is the id the database gives the new row. The insert fails on
  an invalid expiry date and when the token or the id is already present (\<open>P2002\<close>).
\<close>

definition storeRefreshToken ::
  "Env \<Rightarrow> db \<Rightarrow> int \<Rightarrow> string \<Rightarrow> string \<Rightarrow> jwt \<Rightarrow> string option \<Rightarrow> string option \<Rightarrow> (error + unit) \<times> db" where
  "storeRefreshToken env s now rid uid tok ua ipa =
     (case getExpirationDate (JWT_REFRESH_EXPIRES_IN env) now of
        None \<Rightarrow> (Inl (PrismaError ''invalid date''), s)
      | Some expires \<Rightarrow>
          if \<exists>r \<in> set (refreshToken_tbl s). token r = tok \<or> rt_id r = rid
          then (Inl (PrismaError ''P2002''), s)
          else
            let s1 = s\<lparr>refreshToken_tbl := refreshToken_tbl s @
                        [\<lparr>rt_id = rid, token = tok, rt_userId = uid, createdAt = now,
                          expiresAt = expires, revokedAt = None, userAgent = ua, ipAddress = ipa\<rparr>]\<rparr>;
                tokens = refreshToken_beyond_cap s1 uid
            in if 0 < length tokens
               then (Inr (), refreshToken_deleteMany s1 (map rt_id tokens))
               else (Inr (), s1))"

text \<open>\<open>revokeAllUserTokens\<close>: \<open>updateMany({where: {userId, revokedAt: null}, ...})\<close>.\<close>

definition revokeAllUserTokens :: "db \<Rightarrow> int \<Rightarrow> string \<Rightarrow> db" where
  "revokeAllUserTokens s now uid =
     s\<lparr>refreshToken_tbl :=
         map (\<lambda>r. if rt_userId r = uid \<and> revokedAt r = None then r\<lparr>revokedAt := Some now\<rparr> else r)
           (refreshToken_tbl s)\<rparr>"

section \<open>Session manager (\<open>services/auth.service.ts\<close>)\<close>

text \<open>
  Every operation takes the state of the store and one clock reading \<open>now\<close> for all the
  dates it takes, and returns its result, or the error it throws, together with the state
  it leaves behind: a write made before a throw stays made. The password primitives of
  \<open>utils/password\<close> are parameters (\<open>hsh\<close> for \<open>hashPassword\<close>, \<open>cmp\<close> for
  \<open>comparePassword\<close>), and so are the ids the database gives to new rows. The columns
  \<open>avatarUrl\<close> and \<open>theme\<close>, which the service only copies from the row into its answer,
  are left out of the model.
\<close>

record PublicUser =
  pu_id :: string
  pu_email :: string
  pu_name :: "string option"
  pu_status :: string
  pu_authProvider :: "string option"
  pu_createdAt :: int

definition userSelectFields :: "User \<Rightarrow> PublicUser" where
  "userSelectFields u =
     \<lparr>pu_id = u_id u, pu_email = u_email u, pu_name = name u, pu_status = status u,
      pu_authProvider = authProvider u, pu_createdAt = u_createdAt u\<rparr>"

record AuthResult =
  user :: PublicUser
  tokens :: TokenPair

record RegisterInput =
  r_email :: string
  r_password :: string
  r_name :: "string option"

record LoginInput =
  l_email :: string
  l_password :: string

record ChangePasswordInput =
  currentPassword :: string
  newPassword :: string

definition register ::
  "Env \<Rightarrow> (string \<Rightarrow> string) \<Rightarrow> db \<Rightarrow> int \<Rightarrow> string \<Rightarrow> string \<Rightarrow> RegisterInput \<Rightarrow>
   string option \<Rightarrow> string option \<Rightarrow> (error + AuthResult) \<times> db" where
  "register env hsh s now uid rid data ua ipa =
     (case user_findUnique_email s (r_email data) of
        Some existingUser \<Rightarrow> (Inl (AppError ''Email already registered'' 409), s)
      | None \<Rightarrow>
          if \<exists>u \<in> set (user_tbl s). u_id u = uid then (Inl (PrismaError ''P2002''), s)
          else
            let u = \<lparr>u_id = uid, u_email = r_email data,
                     passwordHash = Some (hsh (r_password data)), name = r_name data,
                     status = ''active'',
                     authProvider = Some ''local'', u_createdAt = now, lastLoginAt = None\<rparr>;
                s1 = s\<lparr>user_tbl := user_tbl s @ [u]\<rparr>
            in case generateTokenPair env (u_id u) (u_email u) now of
                 Inl e \<Rightarrow> (Inl e, s1)
               | Inr tks \<Rightarrow>
                   (case storeRefreshToken env s1 now rid (u_id u) (refreshToken tks) ua ipa of
                      (Inl e, s2) \<Rightarrow> (Inl e, s2)
                    | (Inr _, s2) \<Rightarrow> (Inr \<lparr>user = userSelectFields u, tokens = tks\<rparr>, s2)))"

definition login ::
  "Env \<Rightarrow> (string \<Rightarrow> string \<Rightarrow> bool) \<Rightarrow> db \<Rightarrow> int \<Rightarrow> string \<Rightarrow> LoginInput \<Rightarrow>
   string option \<Rightarrow> string option \<Rightarrow> (error + AuthResult) \<times> db" where
  "login env cmp s now rid data ua ipa =
     (case user_findUnique_email s (l_email data) of
        None \<Rightarrow> (Inl (AppError ''Invalid email or password'' 401), s)
      | Some u \<Rightarrow>
          (case passwordHash u of
             None \<Rightarrow>
               (Inl (AppError ''Account uses social login. Please sign in with your provider.'' 401), s)
           | Some h \<Rightarrow>
               if h = [] then
                 (Inl (AppError ''Account uses social login. Please sign in with your provider.'' 401), s)
               else if \<not> cmp (l_password data) h then
                 (Inl (AppError ''Invalid email or password'' 401), s)
               else if status u \<noteq> ''active'' then
                 (Inl (AppError (''Account is '' @ status u) 403), s)
               else
                 let s1 = update_user s (u_id u) (\<lambda>x. x\<lparr>lastLoginAt := Some now\<rparr>)
                 in case generateTokenPair env (u_id u) (u_email u) now of
                      Inl e \<Rightarrow> (Inl e, s1)
                    | Inr tks \<Rightarrow>
                        (case storeRefreshToken env s1 now rid (u_id u) (refreshToken tks) ua ipa of
                           (Inl e, s2) \<Rightarrow> (Inl e, s2)
                         | (Inr _, s2) \<Rightarrow> (Inr \<lparr>user = userSelectFields u, tokens = tks\<rparr>, s2))))"

text \<open>
  \<open>refreshTokens\<close>. The lookup includes the owning user; a row without its user makes that
  query fail.
\<close>

definition refreshTokens ::
  "Env \<Rightarrow> db \<Rightarrow> int \<Rightarrow> string \<Rightarrow> jwt \<Rightarrow> string option \<Rightarrow> string option \<Rightarrow> (error + TokenPair) \<times> db" where
  "refreshTokens env s now rid tok ua ipa =
     (case verifyRefreshToken env tok now of
        None \<Rightarrow> (Inl (AppError ''Invalid or expired refresh token'' 401), s)
      | Some payload \<Rightarrow>
          (case refreshToken_findUnique s tok of
             None \<Rightarrow> (Inl (AppError ''Refresh token not found'' 401), s)
           | Some storedToken \<Rightarrow>
               (case user_findUnique_id s (rt_userId storedToken) of
                  None \<Rightarrow> (Inl (PrismaError ''inconsistent query result''), s)
                | Some owner \<Rightarrow>
                    if revokedAt storedToken \<noteq> None then
                      (Inl (AppError ''Refresh token has been revoked'' 401),
                       revokeAllUserTokens s now (rt_userId storedToken))
                    else if expiresAt storedToken < now then
                      (Inl (AppError ''Refresh token has expired'' 401),
                       refreshToken_deleteMany s [rt_id storedToken])
                    else if status owner \<noteq> ''active'' then
                      (Inl (AppError (''Account is '' @ status owner) 403), s)
                    else
                      let s1 = refreshToken_revoke s (rt_id storedToken) now
                      in case generateTokenPair env (userId payload) (email payload) now of
                           Inl e \<Rightarrow> (Inl e, s1)
                         | Inr tks \<Rightarrow>
                             (case storeRefreshToken env s1 now rid (userId payload)
                                     (refreshToken tks) ua ipa of
                                (Inl e, s2) \<Rightarrow> (Inl e, s2)
                              | (Inr _, s2) \<Rightarrow> (Inr tks, s2)))))"

definition logout :: "db \<Rightarrow> int \<Rightarrow> jwt \<Rightarrow> db" where
  "logout s now tok =
     (case refreshToken_findUnique s tok of
        None \<Rightarrow> s
      | Some storedToken \<Rightarrow>
          if revokedAt storedToken = None then refreshToken_revoke s (rt_id storedToken) now else s)"

definition logoutAll :: "db \<Rightarrow> int \<Rightarrow> string \<Rightarrow> db" where
  "logoutAll s now uid = revokeAllUserTokens s now uid"

definition changePassword ::
  "(string \<Rightarrow> string) \<Rightarrow> (string \<Rightarrow> string \<Rightarrow> bool) \<Rightarrow> db \<Rightarrow> int \<Rightarrow> string \<Rightarrow>
   ChangePasswordInput \<Rightarrow> (error + unit) \<times> db" where
  "changePassword hsh cmp s now uid data =
     (case user_findUnique_id s uid of
        None \<Rightarrow> (Inl (AppError ''User not found'' 404), s)
      | Some u \<Rightarrow>
          (case passwordHash u of
             None \<Rightarrow> (Inl (AppError ''Account uses social login. Cannot change password.'' 400), s)
           | Some h \<Rightarrow>
               if h = [] then
                 (Inl (AppError ''Account uses social login. Cannot change password.'' 400), s)
               else if \<not> cmp (currentPassword data) h then
                 (Inl (AppError ''Current password is incorrect'' 401), s)
               else
                 let s1 = update_user s uid (\<lambda>x. x\<lparr>passwordHash := Some (hsh (newPassword data))\<rparr>)
                 in (Inr (), revokeAllUserTokens s1 now uid)))"

text \<open>
  \<open>getActiveSessions\<close>: the rows of a user that are neither revoked nor expired, newest first.
  The source projects each row to five of its columns; the model returns the rows.
\<close>

definition getActiveSessions :: "db \<Rightarrow> int \<Rightarrow> string \<Rightarrow> RefreshToken list" where
  "getActiveSessions s now uid =
     rev (sort_key createdAt
       (filter (\<lambda>r. rt_userId r = uid \<and> revokedAt r = None \<and> now < expiresAt r) (refreshToken_tbl s)))"

section \<open>Two refresh calls in flight\<close>

text \<open>
  \<open>refreshTokens\<close> is an \<open>async\<close> function: it runs without interruption up to an \<open>await\<close> and
  may be interleaved with other requests there. The first \<open>await\<close> is the lookup of the
  presented token; the function then decides on the row it has read. The two functions below
  are \<open>refreshTokens\<close> cut after that decision: \<open>refreshTokens_lookup\<close> is the source up to the
  status check, \<open>refreshTokens_rotate\<close> is the rest, working on the row and payload the first
  part has read. Each part takes its own clock reading.
\<close>

definition refreshTokens_lookup ::
  "Env \<Rightarrow> db \<Rightarrow> int \<Rightarrow> jwt \<Rightarrow> (error + RefreshToken \<times> JwtPayload) \<times> db" where
  "refreshTokens_lookup env s now tok =
     (case verifyRefreshToken env tok now of
        None \<Rightarrow> (Inl (AppError ''Invalid or expired refresh token'' 401), s)
      | Some payload \<Rightarrow>
          (case refreshToken_findUnique s tok of
             None \<Rightarrow> (Inl (AppError ''Refresh token not found'' 401), s)
           | Some storedToken \<Rightarrow>
               (case user_findUnique_id s (rt_userId storedToken) of
                  None \<Rightarrow> (Inl (PrismaError ''inconsistent query result''), s)
                | Some owner \<Rightarrow>
                    if revokedAt storedToken \<noteq> None then
                      (Inl (AppError ''Refresh token has been revoked'' 401),
                       revokeAllUserTokens s now (rt_userId storedToken))
                    else if expiresAt storedToken < now then
                      (Inl (AppError ''Refresh token has expired'' 401),
                       refreshToken_deleteMany s [rt_id storedToken])
                    else if status owner \<noteq> ''active'' then
                      (Inl (AppError (''Account is '' @ status owner) 403), s)
                    else (Inr (storedToken, payload), s))))"

definition refreshTokens_rotate ::
  "Env \<Rightarrow> db \<Rightarrow> int \<Rightarrow> string \<Rightarrow> RefreshToken \<Rightarrow> JwtPayload \<Rightarrow> string option \<Rightarrow> string option \<Rightarrow>
   (error + TokenPair) \<times> db" where
  "refreshTokens_rotate env s now rid storedToken payload ua ipa =
     (let s1 = refreshToken_revoke s (rt_id storedToken) now
      in case generateTokenPair env (userId payload) (email payload) now of
           Inl e \<Rightarrow> (Inl e, s1)
         | Inr tks \<Rightarrow>
             (case storeRefreshToken env s1 now rid (userId payload) (refreshToken tks) ua ipa of
                (Inl e, s2) \<Rightarrow> (Inl e, s2)
              | (Inr _, s2) \<Rightarrow> (Inr tks, s2)))"

text \<open>A call is waiting to start, has read its row, or has finished with its answer.\<close>

datatype refresh_call =
    Waiting jwt
  | Looked_up RefreshToken JwtPayload
  | Finished "error + TokenPair"

definition refresh_step :: "Env \<Rightarrow> int \<Rightarrow> string \<Rightarrow> refresh_call \<Rightarrow> db \<Rightarrow> refresh_call \<times> db" where
  "refresh_step env now rid c s =
     (case c of
        Waiting tok \<Rightarrow>
          (case refreshTokens_lookup env s now tok of
             (Inl e, s') \<Rightarrow> (Finished (Inl e), s')
           | (Inr (storedToken, payload), s') \<Rightarrow> (Looked_up storedToken payload, s'))
      | Looked_up storedToken payload \<Rightarrow>
          (case refreshTokens_rotate env s now rid storedToken payload None None of
             (res, s') \<Rightarrow> (Finished res, s'))
      | Finished res \<Rightarrow> (Finished res, s))"

text \<open>
  Two calls against one store. A schedule says, step by step, which of the two calls runs
  next (\<open>False\<close> the first, \<open>True\<close> the second), at which clock reading, and which id the
  database would give a row inserted in that step.
\<close>

fun run_two ::
  "Env \<Rightarrow> (bool \<times> int \<times> string) list \<Rightarrow> refresh_call \<times> refresh_call \<times> db \<Rightarrow>
   refresh_call \<times> refresh_call \<times> db" where
  "run_two env [] st = st"
| "run_two env ((second, now, rid) # rest) (c1, c2, s) =
     (if second
      then (case refresh_step env now rid c2 s of (c2', s') \<Rightarrow> run_two env rest (c1, c2', s'))
      else (case refresh_step env now rid c1 s of (c1', s') \<Rightarrow> run_two env rest (c1', c2, s')))"

section \<open>Password primitives\<close>

text \<open>
  Modelled from the spec: \<open>utils/password\<close> (\<open>hashPassword\<close>, \<open>comparePassword\<close>) is not
  among the sources. The spec (4.2) describes \<open>hash(plaintext)\<close> as salted and one-way and
  \<open>compare(plaintext, hash)\<close> as a check of the plaintext against the hash that returns
  false on mismatch and never throws. The model is the ideal primitive: a hash is the
  22-character salt followed by the plaintext, which only \<open>comparePassword\<close> looks into, so
  that a hash matches exactly the plaintext it was made from.
\<close>

definition hashPassword :: "string \<Rightarrow> string \<Rightarrow> string" where
  "hashPassword salt plaintext = take 22 (salt @ replicate 22 (CHR ''.'')) @ plaintext"

definition comparePassword :: "string \<Rightarrow> string \<Rightarrow> bool" where
  "comparePassword plaintext h = (22 \<le> length h \<and> drop 22 h = plaintext)"

section \<open>Concrete configurations used to exercise the theorems\<close>

definition ex_env :: Env where
  "ex_env = \<lparr>JWT_ACCESS_SECRET = ''access-secret-0123456789-abcdefghij'',
             JWT_REFRESH_SECRET = ''refresh-secret-0123456789-abcdefghi'',
             JWT_ACCESS_EXPIRES_IN = ''15m'',
             JWT_REFRESH_EXPIRES_IN = ''7d''\<rparr>"

definition ex_alice :: User where
  "ex_alice = \<lparr>u_id = ''u1'', u_email = ''alice@example.com'',
                passwordHash = Some (hashPassword ''salt'' ''Abcd1234!''), name = Some ''Alice'',
                status = ''active'',
                authProvider = Some ''local'', u_createdAt = 0, lastLoginAt = None\<rparr>"

definition ex_db0 :: db where
  "ex_db0 = \<lparr>user_tbl = [ex_alice], refreshToken_tbl = []\<rparr>"

text \<open>
  A suspended account holding the refresh token issued to it at clock reading 1500, with
  the record \<open>storeRefreshToken\<close> wrote for it then.
\<close>

definition ex_bob :: User where
  "ex_bob = \<lparr>u_id = ''u2'', u_email = ''bob@example.com'',
              passwordHash = Some (hashPassword ''pepper'' ''Wxyz9876!''), name = None,
              status = ''suspended'',
              authProvider = Some ''local'', u_createdAt = 0, lastLoginAt = None\<rparr>"

definition ex_bob_token :: jwt where
  "ex_bob_token =
     Jwt ''refresh-secret-0123456789-abcdefghi''
       \<lparr>userId = ''u2'', email = ''bob@example.com'', type = Refresh\<rparr> 1 604801"

definition ex_bob_record :: RefreshToken where
  "ex_bob_record = \<lparr>rt_id = ''r1'', token = ex_bob_token, rt_userId = ''u2'', createdAt = 1500,
                     expiresAt = 604801500, revokedAt = None, userAgent = None, ipAddress = None\<rparr>"

definition ex_db_bob :: db where
  "ex_db_bob = \<lparr>user_tbl = [ex_bob], refreshToken_tbl = [ex_bob_record]\<rparr>"

text \<open>
  An active account holding the refresh token issued to it at clock reading 1500, and the
  store after that token has been rotated at clock reading 5000.
\<close>

definition ex_alice_token :: jwt where
  "ex_alice_token =
     Jwt ''refresh-secret-0123456789-abcdefghi''
       \<lparr>userId = ''u1'', email = ''alice@example.com'', type = Refresh\<rparr> 1 604801"

definition ex_alice_record :: RefreshToken where
  "ex_alice_record = \<lparr>rt_id = ''r1'', token = ex_alice_token, rt_userId = ''u1'', createdAt = 1500,
                       expiresAt = 604801500, revokedAt = None, userAgent = None, ipAddress = None\<rparr>"

definition ex_db_alice :: db where
  "ex_db_alice = \<lparr>user_tbl = [ex_alice], refreshToken_tbl = [ex_alice_record]\<rparr>"

definition ex_alice_pair2 :: TokenPair where
  "ex_alice_pair2 =
     \<lparr>accessToken = Jwt ''access-secret-0123456789-abcdefghij''
                       \<lparr>userId = ''u1'', email = ''alice@example.com'', type = Access\<rparr> 5 905,
      refreshToken = Jwt ''refresh-secret-0123456789-abcdefghi''
                       \<lparr>userId = ''u1'', email = ''alice@example.com'', type = Refresh\<rparr> 5 604805\<rparr>"

definition ex_alice_record2 :: RefreshToken where
  "ex_alice_record2 = \<lparr>rt_id = ''r2'', token = refreshToken ex_alice_pair2, rt_userId = ''u1'',
                        createdAt = 5000, expiresAt = 604805000, revokedAt = None,
                        userAgent = None, ipAddress = None\<rparr>"

definition ex_db_alice2 :: db where
  "ex_db_alice2 = \<lparr>user_tbl = [ex_alice],
                    refreshToken_tbl = [ex_alice_record\<lparr>revokedAt := Some 5000\<rparr>, ex_alice_record2]\<rparr>"

text \<open>
  The account after it has changed its password to the password it had, and the pair a
  login at clock reading 6000 issues.
\<close>

definition ex_alice_pw :: User where
  "ex_alice_pw = ex_alice\<lparr>passwordHash := Some (hashPassword ''salt2'' ''Abcd1234!'')\<rparr>"

definition ex_db_alice_pw :: db where
  "ex_db_alice_pw = \<lparr>user_tbl = [ex_alice_pw],
                      refreshToken_tbl = [ex_alice_record\<lparr>revokedAt := Some 5000\<rparr>]\<rparr>"

definition ex_alice_pair6 :: TokenPair where
  "ex_alice_pair6 =
     \<lparr>accessToken = Jwt ''access-secret-0123456789-abcdefghij''
                       \<lparr>userId = ''u1'', email = ''alice@example.com'', type = Access\<rparr> 6 906,
      refreshToken = Jwt ''refresh-secret-0123456789-abcdefghi''
                       \<lparr>userId = ''u1'', email = ''alice@example.com'', type = Refresh\<rparr> 6 604806\<rparr>"

text \<open>The store after the account has changed its password to a different one.\<close>

definition ex_db_alice_new :: db where
  "ex_db_alice_new =
     \<lparr>user_tbl = [ex_alice\<lparr>passwordHash := Some (hashPassword ''salt2'' ''Efgh5678!'')\<rparr>],
      refreshToken_tbl = [ex_alice_record\<lparr>revokedAt := Some 5000\<rparr>]\<rparr>"

text \<open>The store after both calls have rotated the token issued at 1500.\<close>

definition ex_db_alice_both :: db where
  "ex_db_alice_both =
     \<lparr>user_tbl = [ex_alice],
      refreshToken_tbl =
        [ex_alice_record\<lparr>revokedAt := Some 6000\<rparr>, ex_alice_record2,
         \<lparr>rt_id = ''r3'', token = refreshToken ex_alice_pair6, rt_userId = ''u1'', createdAt = 6000,
          expiresAt = 604806000, revokedAt = None, userAgent = None, ipAddress = None\<rparr>]\<rparr>"

text \<open>An account holding ten live refresh tokens, issued one second apart.\<close>

definition ex_session :: "int \<Rightarrow> string \<Rightarrow> RefreshToken" where
  "ex_session i rid =
     \<lparr>rt_id = rid,
      token = Jwt ''refresh-secret-0123456789-abcdefghi''
                \<lparr>userId = ''u1'', email = ''alice@example.com'', type = Refresh\<rparr> i (i + 604800),
      rt_userId = ''u1'', createdAt = i * 1000, expiresAt = i * 1000 + 604800000,
      revokedAt = None, userAgent = None, ipAddress = None\<rparr>"

definition ex_db_ten :: db where
  "ex_db_ten =
     \<lparr>user_tbl = [ex_alice],
      refreshToken_tbl =
        [ex_session 1 ''r01'', ex_session 2 ''r02'', ex_session 3 ''r03'', ex_session 4 ''r04'',
         ex_session 5 ''r05'', ex_session 6 ''r06'', ex_session 7 ''r07'', ex_session 8 ''r08'',
         ex_session 9 ''r09'', ex_session 10 ''r10'']\<rparr>"

section \<open>Duration grammar\<close>


lemma digit_not_space: "is_digit c \<Longrightarrow> \<not> is_js_space c"
  unfolding is_digit_def is_js_space_def by auto

lemma digit_not_sign: "is_digit c \<Longrightarrow> c \<noteq> CHR ''-'' \<and> c \<noteq> CHR ''+''"
  unfolding is_digit_def by auto

lemma parseInt10_digits:
  assumes "ds \<noteq> []" "\<forall>c\<in>set ds. is_digit c"
  shows "parseInt10 ds = Num (digits_val ds)"
proof -
  obtain c r where ds: "ds = c # r" using assms(1) by (cases ds) auto
  have c: "is_digit c" using assms(2) ds by simp
  have nsign: "c \<noteq> CHR ''-''" "c \<noteq> CHR ''+''" using digit_not_sign[OF c] by simp_all
  have tw: "takeWhile is_digit (c # r) = c # r" using assms(2) ds by (simp add: takeWhile_eq_all_conv)
  have dw: "dropWhile is_js_space (c # r) = c # r" using digit_not_space[OF c] by simp
  show ?thesis
    unfolding parseInt10_def ds dw Let_def using nsign tw by simp
qed


lemma slice_snoc: "slice_last (ds @ [u]) = [u]" "slice_init (ds @ [u]) = ds"
  by (simp_all add: slice_last_def slice_init_def)

text \<open>
  Claim C9. \<open>parseDuration\<close> maps a non-empty string of decimal digits followed by one of
  the unit characters \<open>s\<close>, \<open>m\<close>, \<open>h\<close>, \<open>d\<close> to that many seconds, minutes, hours or days,
  expressed in seconds (within the range in which JavaScript numbers are exact integers),
  and every string whose last character is none of the four units, the empty string
  included, to the default of 7 days, 604800 seconds.
\<close>

theorem parseDuration_units_and_default:
  "(ds \<noteq> [] \<and> (\<forall>c\<in>set ds. is_digit c) \<and> digits_val ds * 86400 \<le> 2 ^ 53 \<longrightarrow>
      parseDuration (ds @ ''s'') = Num (digits_val ds) \<and>
      parseDuration (ds @ ''m'') = Num (digits_val ds * 60) \<and>
      parseDuration (ds @ ''h'') = Num (digits_val ds * 3600) \<and>
      parseDuration (ds @ ''d'') = Num (digits_val ds * 86400)) \<and>
   (slice_last d \<notin> {''s'', ''m'', ''h'', ''d''} \<longrightarrow> parseDuration d = Num 604800)"
proof (intro conjI impI)
  assume "slice_last d \<notin> {''s'', ''m'', ''h'', ''d''}"
  then show "parseDuration d = Num 604800" by (simp add: parseDuration_def Let_def)
next
  assume a: "ds \<noteq> [] \<and> (\<forall>c\<in>set ds. is_digit c) \<and> digits_val ds * 86400 \<le> 2 ^ 53"
  then have p: "parseInt10 ds = Num (digits_val ds)" by (simp add: parseInt10_digits)
  show "parseDuration (ds @ ''s'') = Num (digits_val ds)"
    by (simp add: parseDuration_def Let_def slice_snoc p)
  show "parseDuration (ds @ ''m'') = Num (digits_val ds * 60)"
    by (simp add: parseDuration_def Let_def slice_snoc p js_mul_def)
  show "parseDuration (ds @ ''h'') = Num (digits_val ds * 3600)"
    by (simp add: parseDuration_def Let_def slice_snoc p js_mul_def)
  show "parseDuration (ds @ ''d'') = Num (digits_val ds * 86400)"
    by (simp add: parseDuration_def Let_def slice_snoc p js_mul_def)
qed

lemma digits_val_15: "digits_val ''15'' = 15"
  by (simp add: digits_val_def digit_val_def)

theorem parseDuration_units_and_default_witness:
  "parseDuration ''15m'' = Num 900 \<and> parseDuration ''15d'' = Num 1296000 \<and>
   parseDuration ''15x'' = Num 604800"
proof -
  have h: "''15'' \<noteq> [] \<and> (\<forall>c\<in>set ''15''. is_digit c) \<and> digits_val ''15'' * 86400 \<le> 2 ^ 53"
    unfolding digits_val_15 by (simp add: is_digit_def)
  have g: "slice_last ''15x'' \<notin> {''s'', ''m'', ''h'', ''d''}"
    by (simp add: slice_last_def)
  from parseDuration_units_and_default [of "''15''" "''15x''"] h g
  have "parseDuration (''15'' @ ''m'') = Num (digits_val ''15'' * 60)"
       "parseDuration (''15'' @ ''d'') = Num (digits_val ''15'' * 86400)"
       "parseDuration ''15x'' = Num 604800"
    by blast+
  then show ?thesis unfolding digits_val_15 by simp
qed

section \<open>Token codec\<close>

lemma jwt_sign_ok:
  "secret \<noteq> [] \<Longrightarrow> jwt_sign p secret (Num n) now = Inr (Jwt secret p (now div 1000) (now div 1000 + n))"
  by (simp add: jwt_sign_def)

lemma valid_env_secrets: "valid_env env \<Longrightarrow> JWT_ACCESS_SECRET env \<noteq> [] \<and> JWT_REFRESH_SECRET env \<noteq> []"
  by (auto simp: valid_env_def)

text \<open>
  Claim C7. Under a valid environment whose two durations parse, both generators return a
  token. The refresh token verifies as a refresh token at every time before its expiry,
  with the user id, email and kind it was issued for, and never verifies as an access token;
  the access token verifies as an access token before its expiry and never as a refresh
  token. The cross-kind rejection holds whether or not the two secrets differ: with equal
  secrets the signature check passes and the kind check rejects.
\<close>

theorem token_kind_isolation:
  assumes "valid_env env"
    and "parseDuration (JWT_ACCESS_EXPIRES_IN env) = Num ta"
    and "parseDuration (JWT_REFRESH_EXPIRES_IN env) = Num tr"
  shows "\<exists>a r. generateAccessToken env u e t0 = Inr a \<and> generateRefreshToken env u e t0 = Inr r \<and>
           (\<forall>t. t div 1000 < t0 div 1000 + tr \<longrightarrow>
                verifyRefreshToken env r t = Some \<lparr>userId = u, email = e, type = Refresh\<rparr>) \<and>
           (\<forall>t. verifyAccessToken env r t = None) \<and>
           (\<forall>t. t div 1000 < t0 div 1000 + ta \<longrightarrow>
                verifyAccessToken env a t = Some \<lparr>userId = u, email = e, type = Access\<rparr>) \<and>
           (\<forall>t. verifyRefreshToken env a t = None)"
proof -
  let ?a = "Jwt (JWT_ACCESS_SECRET env) \<lparr>userId = u, email = e, type = Access\<rparr> (t0 div 1000) (t0 div 1000 + ta)"
  let ?r = "Jwt (JWT_REFRESH_SECRET env) \<lparr>userId = u, email = e, type = Refresh\<rparr> (t0 div 1000) (t0 div 1000 + tr)"
  have ne: "JWT_ACCESS_SECRET env \<noteq> []" "JWT_REFRESH_SECRET env \<noteq> []"
    using valid_env_secrets[OF assms(1)] by simp_all
  have ga: "generateAccessToken env u e t0 = Inr ?a"
    by (simp add: generateAccessToken_def assms(2) jwt_sign_ok ne)
  have gr: "generateRefreshToken env u e t0 = Inr ?r"
    by (simp add: generateRefreshToken_def assms(3) jwt_sign_ok ne)
  have 1: "\<forall>t. t div 1000 < t0 div 1000 + tr \<longrightarrow>
                verifyRefreshToken env ?r t = Some \<lparr>userId = u, email = e, type = Refresh\<rparr>"
    by (simp add: verifyRefreshToken_def jwt_verify_def ne)
  have 2: "\<forall>t. verifyAccessToken env ?r t = None"
    by (simp add: verifyAccessToken_def jwt_verify_def)
  have 3: "\<forall>t. t div 1000 < t0 div 1000 + ta \<longrightarrow>
                verifyAccessToken env ?a t = Some \<lparr>userId = u, email = e, type = Access\<rparr>"
    by (simp add: verifyAccessToken_def jwt_verify_def ne)
  have 4: "\<forall>t. verifyRefreshToken env ?a t = None"
    by (simp add: verifyRefreshToken_def jwt_verify_def)
  from ga gr 1 2 3 4 show ?thesis by blast
qed

lemma ex_env_valid: "valid_env ex_env"
  by (simp add: valid_env_def ex_env_def)

lemma ex_env_ttl:
  "parseDuration (JWT_ACCESS_EXPIRES_IN ex_env) = Num 900"
  "parseDuration (JWT_REFRESH_EXPIRES_IN ex_env) = Num 604800"
  by (simp_all add: ex_env_def parseDuration_def Let_def slice_last_def slice_init_def parseInt10_def
      is_js_space_def is_digit_def digits_val_def digit_val_def js_mul_def)

theorem token_kind_isolation_witness:
  "\<exists>a r. generateAccessToken ex_env ''u1'' ''alice@example.com'' 1500 = Inr a \<and>
         generateRefreshToken ex_env ''u1'' ''alice@example.com'' 1500 = Inr r \<and>
         verifyRefreshToken ex_env r 2000 = Some \<lparr>userId = ''u1'', email = ''alice@example.com'', type = Refresh\<rparr> \<and>
         verifyAccessToken ex_env r 2000 = None \<and>
         verifyAccessToken ex_env a 2000 = Some \<lparr>userId = ''u1'', email = ''alice@example.com'', type = Access\<rparr> \<and>
         verifyRefreshToken ex_env a 2000 = None"
proof -
  from token_kind_isolation [OF ex_env_valid ex_env_ttl, of "''u1''" "''alice@example.com''" 1500]
  obtain a r where g: "generateAccessToken ex_env ''u1'' ''alice@example.com'' 1500 = Inr a"
      "generateRefreshToken ex_env ''u1'' ''alice@example.com'' 1500 = Inr r"
    and v1: "\<forall>t. t div 1000 < 1500 div 1000 + 604800 \<longrightarrow>
                verifyRefreshToken ex_env r t = Some \<lparr>userId = ''u1'', email = ''alice@example.com'', type = Refresh\<rparr>"
    and v2: "\<forall>t. verifyAccessToken ex_env r t = None"
    and v3: "\<forall>t. t div 1000 < 1500 div 1000 + 900 \<longrightarrow>
                verifyAccessToken ex_env a t = Some \<lparr>userId = ''u1'', email = ''alice@example.com'', type = Access\<rparr>"
    and v4: "\<forall>t. verifyRefreshToken ex_env a t = None"
    by blast
  have "verifyRefreshToken ex_env r 2000 = Some \<lparr>userId = ''u1'', email = ''alice@example.com'', type = Refresh\<rparr>"
    using v1 [rule_format, of 2000] by simp
  moreover have "verifyAccessToken ex_env a 2000 = Some \<lparr>userId = ''u1'', email = ''alice@example.com'', type = Access\<rparr>"
    using v3 [rule_format, of 2000] by simp
  ultimately show ?thesis using g v2 v4 by blast
qed

section \<open>Rate limiter\<close>

lemma rateLimit_new_window:
  assumes "store (default_keyGenerator req) = None \<or>
           (\<exists>e. store (default_keyGenerator req) = Some e \<and> resetTime e \<le> now)"
  shows "rateLimit \<lparr>windowMs = Some w, maxRequests = Some m, message = Some msg, keyGenerator = None\<rparr>
           req now store =
         (store(default_keyGenerator req \<mapsto> \<lparr>count = 1, resetTime = now + w\<rparr>),
          \<lparr>x_ratelimit_limit = m, x_ratelimit_remaining = max 0 (m - 1),
           x_ratelimit_reset = now + w,
           retry_after = (if m < 1 then Some (js_ceil_div w 1000) else None)\<rparr>,
          (if m < 1 then SendError msg 429 else Next))"
  using assms by (auto simp: rateLimit_def Let_def)

lemma rateLimit_same_window:
  assumes "store (default_keyGenerator req) = Some e" and "now < resetTime e"
  shows "rateLimit \<lparr>windowMs = Some w, maxRequests = Some m, message = Some msg, keyGenerator = None\<rparr>
           req now store =
         (store(default_keyGenerator req \<mapsto> e\<lparr>count := count e + 1\<rparr>),
          \<lparr>x_ratelimit_limit = m, x_ratelimit_remaining = max 0 (m - (count e + 1)),
           x_ratelimit_reset = resetTime e,
           retry_after = (if m < count e + 1 then Some (js_ceil_div (resetTime e - now) 1000) else None)\<rparr>,
          (if m < count e + 1 then SendError msg 429 else Next))"
  using assms by (auto simp: rateLimit_def Let_def)

lemma upt_0_Suc_map: "[0..<Suc n] = 0 # map Suc [0..<n]"
  by (simp add: upt_conv_Cons map_Suc_upt del: upt_Suc)

lemma serve_isolated_window:
  assumes "store k = Some e"
    and "\<forall>(req, t) \<in> set reqs. default_keyGenerator req = k \<and> t < resetTime e"
  shows "map snd (serve (rateLimit \<lparr>windowMs = Some w, maxRequests = Some m, message = Some msg,
                                    keyGenerator = None\<rparr>) store reqs) =
         map (\<lambda>i. if m < count e + 1 + int i then SendError msg 429 else Next) [0..<length reqs]"
  using assms
proof (induction reqs arbitrary: store e)
  case Nil
  then show ?case by simp
next
  case (Cons a reqs)
  obtain req t where a: "a = (req, t)" by (cases a)
  from Cons.prems a have k: "default_keyGenerator req = k" and t: "t < resetTime e" by auto
  let ?e = "e\<lparr>count := count e + 1\<rparr>"
  let ?store = "store(k \<mapsto> ?e)"
  have step: "rateLimit \<lparr>windowMs = Some w, maxRequests = Some m, message = Some msg, keyGenerator = None\<rparr>
           req t store =
         (?store,
          \<lparr>x_ratelimit_limit = m, x_ratelimit_remaining = max 0 (m - (count e + 1)),
           x_ratelimit_reset = resetTime e,
           retry_after = (if m < count e + 1 then Some (js_ceil_div (resetTime e - t) 1000) else None)\<rparr>,
          (if m < count e + 1 then SendError msg 429 else Next))"
    using rateLimit_same_window[of store req e t w m msg] Cons.prems(1) k t by simp
  have ih: "map snd (serve (rateLimit \<lparr>windowMs = Some w, maxRequests = Some m, message = Some msg,
                                    keyGenerator = None\<rparr>) ?store reqs) =
         map (\<lambda>i. if m < count ?e + 1 + int i then SendError msg 429 else Next) [0..<length reqs]"
    by (rule Cons.IH) (use Cons.prems in auto)
  have len: "[0..<length (a # reqs)] = 0 # map Suc [0..<length reqs]"
    using upt_0_Suc_map by simp
  show ?case unfolding len unfolding a using ih by (simp add: step comp_def add.assoc add.commute add.left_commute)
qed

text \<open>
  A limiter that has the store to itself behaves as a fixed window: when the first request
  finds no entry, or an entry whose reset time has passed, it opens a window, and of the
  requests that follow before the reset time exactly those within the first \<open>m\<close> of the
  window are passed on.
\<close>

lemma serve_fresh_window:
  assumes "store (default_keyGenerator req0) = None \<or>
           (\<exists>e. store (default_keyGenerator req0) = Some e \<and> resetTime e \<le> t0)"
    and "\<forall>(req, t) \<in> set reqs. default_keyGenerator req = default_keyGenerator req0 \<and> t < t0 + w"
  shows "map snd (serve (rateLimit \<lparr>windowMs = Some w, maxRequests = Some m, message = Some msg,
                                    keyGenerator = None\<rparr>) store ((req0, t0) # reqs)) =
         map (\<lambda>i. if m < 1 + int i then SendError msg 429 else Next) [0..<Suc (length reqs)]"
proof -
  let ?k = "default_keyGenerator req0"
  let ?e = "\<lparr>count = 1, resetTime = t0 + w\<rparr>"
  let ?store = "store(?k \<mapsto> ?e)"
  have rest: "map snd (serve (rateLimit \<lparr>windowMs = Some w, maxRequests = Some m, message = Some msg,
                                    keyGenerator = None\<rparr>) ?store reqs) =
         map (\<lambda>i. if m < count ?e + 1 + int i then SendError msg 429 else Next) [0..<length reqs]"
    by (rule serve_isolated_window [where k = ?k]) (use assms(2) in auto)
  have len: "[0..<Suc (length reqs)] = 0 # map Suc [0..<length reqs]"
    by (rule upt_0_Suc_map)
  show ?thesis unfolding len using rest
    by (simp add: rateLimit_new_window [of store req0 t0, OF assms(1)] comp_def add.assoc add.commute add.left_commute)
qed

text \<open>The periodic sweep removes only entries the middleware would replace anyway.\<close>

lemma cleanup_invisible:
  assumes "t \<le> now"
  shows "snd (rateLimit options req now (cleanup t store)) = snd (rateLimit options req now store)"
  using assms by (auto simp: rateLimit_def cleanup_def Let_def split: option.splits)

text \<open>
  The authentication limiter with the store to itself: ten requests pass, the eleventh is
  rejected with the time to the reset in seconds, and the request at the reset time opens a
  new window.
\<close>

lemma auth_limiter_alone:
  "serve authRateLimiter Map.empty
     (map (\<lambda>t. (\<lparr>ip = Some ''203.0.113.7''\<rparr>, t))
        [0, 1000, 2000, 3000, 4000, 5000, 6000, 7000, 8000, 9000, 10500, 900000]) =
   [(\<lparr>x_ratelimit_limit = 10, x_ratelimit_remaining = 9, x_ratelimit_reset = 900000, retry_after = None\<rparr>, Next),
    (\<lparr>x_ratelimit_limit = 10, x_ratelimit_remaining = 8, x_ratelimit_reset = 900000, retry_after = None\<rparr>, Next),
    (\<lparr>x_ratelimit_limit = 10, x_ratelimit_remaining = 7, x_ratelimit_reset = 900000, retry_after = None\<rparr>, Next),
    (\<lparr>x_ratelimit_limit = 10, x_ratelimit_remaining = 6, x_ratelimit_reset = 900000, retry_after = None\<rparr>, Next),
    (\<lparr>x_ratelimit_limit = 10, x_ratelimit_remaining = 5, x_ratelimit_reset = 900000, retry_after = None\<rparr>, Next),
    (\<lparr>x_ratelimit_limit = 10, x_ratelimit_remaining = 4, x_ratelimit_reset = 900000, retry_after = None\<rparr>, Next),
    (\<lparr>x_ratelimit_limit = 10, x_ratelimit_remaining = 3, x_ratelimit_reset = 900000, retry_after = None\<rparr>, Next),
    (\<lparr>x_ratelimit_limit = 10, x_ratelimit_remaining = 2, x_ratelimit_reset = 900000, retry_after = None\<rparr>, Next),
    (\<lparr>x_ratelimit_limit = 10, x_ratelimit_remaining = 1, x_ratelimit_reset = 900000, retry_after = None\<rparr>, Next),
    (\<lparr>x_ratelimit_limit = 10, x_ratelimit_remaining = 0, x_ratelimit_reset = 900000, retry_after = None\<rparr>, Next),
    (\<lparr>x_ratelimit_limit = 10, x_ratelimit_remaining = 0, x_ratelimit_reset = 900000, retry_after = Some 890\<rparr>,
     SendError ''Too many authentication attempts, please try again in 15 minutes'' 429),
    (\<lparr>x_ratelimit_limit = 10, x_ratelimit_remaining = 9, x_ratelimit_reset = 1800000, retry_after = None\<rparr>, Next)]"
  by (simp add: authRateLimiter_def rateLimit_def default_keyGenerator_def js_ceil_div_def Let_def)

text \<open>
  Claim C8. The claim gives the authentication limiter ten requests per fifteen minutes.
  Both limiters write to the one module-level store under the same key, the client address,
  and a request to an authentication route passes through both, so it is counted twice, in
  a window opened by the general limiter: of six login requests sent by one client within
  six seconds, the sixth is rejected by the authentication limiter, with a retry hint of
  55 seconds.
\<close>

theorem auth_limit_shared_counter:
  "serve auth_route_chain Map.empty
     (map (\<lambda>t. (\<lparr>ip = Some ''203.0.113.7''\<rparr>, t)) [0, 1000, 2000, 3000, 4000, 5000]) =
   [ReachedHandler, ReachedHandler, ReachedHandler, ReachedHandler, ReachedHandler,
    RejectedByAuth
      (SendError ''Too many authentication attempts, please try again in 15 minutes'' 429)
      \<lparr>x_ratelimit_limit = 10, x_ratelimit_remaining = 0, x_ratelimit_reset = 60000,
       retry_after = Some 55\<rparr>]"
  by (simp add: auth_route_chain_def apiRateLimiter_def authRateLimiter_def rateLimit_def
      default_keyGenerator_def js_ceil_div_def Let_def)

section \<open>Login and failure of the password change\<close>

lemma generateTokenPair_error: "generateTokenPair env uid mail now = Inl e \<Longrightarrow> e = JwtError"
  by (auto simp: generateTokenPair_def generateAccessToken_def generateRefreshToken_def jwt_sign_def
      split: sum.splits if_splits jsnum.splits)

lemma storeRefreshToken_error:
  "storeRefreshToken env s now rid uid tok ua ipa = (Inl e, s') \<Longrightarrow> (\<exists>c. e = PrismaError c) \<and> s' = s"
  by (auto simp: storeRefreshToken_def Let_def split: option.splits if_splits)

lemma issue_not_AppError:
  "(case generateTokenPair env uid mail now of
      Inl e \<Rightarrow> (Inl e, s1)
    | Inr tks \<Rightarrow>
        (case storeRefreshToken env s1 now rid uid2 (refreshToken tks) ua ipa of
           (Inl e, s2) \<Rightarrow> (Inl e, s2)
         | (Inr _, s2) \<Rightarrow> (Inr (f tks), s2))) = (Inl e, s') \<Longrightarrow> e \<noteq> AppError m c"
  by (auto split: sum.splits prod.splits dest: generateTokenPair_error storeRefreshToken_error)

text \<open>
  Claim C3. \<open>login\<close> answers 401 exactly when the email matches no account, the account has
  no password hash, or the comparison fails (stored hashes being non-empty, as every output
  of the hashing primitive is). The first and the last case carry the message
  \<open>Invalid email or password\<close> and leave the store unchanged; the account without a hash gets a
  message of its own. An answer 403 is given only to an account whose password has been
  verified, and carries the status.
\<close>

theorem login_unauthorized_cases:
  assumes "\<forall>u. user_findUnique_email s (l_email data) = Some u \<longrightarrow> passwordHash u \<noteq> Some []"
  shows "((\<exists>m. fst (login env cmp s now rid data ua ipa) = Inl (AppError m 401)) \<longleftrightarrow>
            (user_findUnique_email s (l_email data) = None \<or>
             (\<exists>u. user_findUnique_email s (l_email data) = Some u \<and>
                  (passwordHash u = None \<or>
                   (\<exists>h. passwordHash u = Some h \<and> \<not> cmp (l_password data) h))))) \<and>
         (user_findUnique_email s (l_email data) = None \<longrightarrow>
            login env cmp s now rid data ua ipa = (Inl (AppError ''Invalid email or password'' 401), s)) \<and>
         (\<forall>u h. user_findUnique_email s (l_email data) = Some u \<and> passwordHash u = Some h \<and>
                \<not> cmp (l_password data) h \<longrightarrow>
            login env cmp s now rid data ua ipa = (Inl (AppError ''Invalid email or password'' 401), s)) \<and>
         (\<forall>u. user_findUnique_email s (l_email data) = Some u \<and> passwordHash u = None \<longrightarrow>
            login env cmp s now rid data ua ipa =
              (Inl (AppError ''Account uses social login. Please sign in with your provider.'' 401), s)) \<and>
         (\<forall>m. fst (login env cmp s now rid data ua ipa) = Inl (AppError m 403) \<longrightarrow>
            (\<exists>u h. user_findUnique_email s (l_email data) = Some u \<and> passwordHash u = Some h \<and>
                   cmp (l_password data) h \<and> status u \<noteq> ''active'' \<and> m = ''Account is '' @ status u))"
proof (cases "user_findUnique_email s (l_email data)")
  case None
  then show ?thesis by (simp add: login_def)
next
  case (Some u)
  note u = Some
  show ?thesis
  proof (cases "passwordHash u")
    case None
    then show ?thesis using u by (simp add: login_def)
  next
    case (Some h)
    with assms u have h: "h \<noteq> []" by auto
    show ?thesis
    proof (cases "cmp (l_password data) h")
      case False
      then show ?thesis using u Some h by (simp add: login_def)
    next
      case True
      show ?thesis
      proof (cases "status u = ''active''")
        case False
        then show ?thesis using u Some h True by (simp add: login_def)
      next
        case active: True
        have "fst (login env cmp s now rid data ua ipa) \<noteq> Inl (AppError m c)" for m c
          using u Some h True active issue_not_AppError
          by (fastforce simp: login_def Let_def fst_def split: prod.splits)
        then show ?thesis using u Some h True active by simp
      qed
    qed
  qed
qed


lemma ex_db0_find_alice:
  "user_findUnique_email ex_db0 ''alice@example.com'' = Some ex_alice"
  "user_findUnique_id ex_db0 ''u1'' = Some ex_alice"
  "user_findUnique_email ex_db0 ''bob@example.com'' = None"
  "user_findUnique_id ex_db0 ''u2'' = None"
  by (simp_all add: user_findUnique_email_def user_findUnique_id_def ex_db0_def ex_alice_def)

lemma ex_alice_hash:
  "passwordHash ex_alice = Some (hashPassword ''salt'' ''Abcd1234!'')"
  "hashPassword ''salt'' ''Abcd1234!'' \<noteq> []"
  "\<not> comparePassword ''wrong'' (hashPassword ''salt'' ''Abcd1234!'')"
  "comparePassword ''Abcd1234!'' (hashPassword ''salt'' ''Abcd1234!'')"
  by (simp_all add: ex_alice_def hashPassword_def comparePassword_def)

theorem login_unauthorized_cases_witness:
  "login ex_env comparePassword ex_db0 1000 ''r1''
     \<lparr>l_email = ''alice@example.com'', l_password = ''wrong''\<rparr> None None =
     (Inl (AppError ''Invalid email or password'' 401), ex_db0) \<and>
   login ex_env comparePassword ex_db0 1000 ''r1''
     \<lparr>l_email = ''bob@example.com'', l_password = ''Abcd1234!''\<rparr> None None =
     (Inl (AppError ''Invalid email or password'' 401), ex_db0)"
proof -
  have a: "\<forall>u. user_findUnique_email ex_db0 (l_email \<lparr>l_email = ''alice@example.com'', l_password = ''wrong''\<rparr>) = Some u
             \<longrightarrow> passwordHash u \<noteq> Some []"
    using ex_db0_find_alice ex_alice_hash by simp
  have b: "\<forall>u. user_findUnique_email ex_db0 (l_email \<lparr>l_email = ''bob@example.com'', l_password = ''Abcd1234!''\<rparr>) = Some u
             \<longrightarrow> passwordHash u \<noteq> Some []"
    using ex_db0_find_alice by simp
  have 1: "login ex_env comparePassword ex_db0 1000 ''r1''
     \<lparr>l_email = ''alice@example.com'', l_password = ''wrong''\<rparr> None None =
     (Inl (AppError ''Invalid email or password'' 401), ex_db0)"
    using login_unauthorized_cases [OF a, of ex_env comparePassword 1000 "''r1''" None None]
      ex_db0_find_alice ex_alice_hash by simp
  have 2: "login ex_env comparePassword ex_db0 1000 ''r1''
     \<lparr>l_email = ''bob@example.com'', l_password = ''Abcd1234!''\<rparr> None None =
     (Inl (AppError ''Invalid email or password'' 401), ex_db0)"
    using login_unauthorized_cases [OF b, of ex_env comparePassword 1000 "''r1''" None None]
      ex_db0_find_alice by simp
  from 1 2 show ?thesis by simp
qed

text \<open>
  Claim C10. \<open>changePassword\<close> fails in three ways, each before its first write: without an
  account (404), with an account without a password hash (400), and on a mismatch of the
  current password (401). Whenever it fails, the store it leaves is the store it found: the
  password hash is unchanged and no refresh token is revoked or deleted.
\<close>

theorem changePassword_failure_atomic:
  "(\<forall>e s'. changePassword hsh cmp s now uid data = (Inl e, s') \<longrightarrow>
        s' = s \<and>
        (e = AppError ''User not found'' 404 \<or>
         e = AppError ''Account uses social login. Cannot change password.'' 400 \<or>
         e = AppError ''Current password is incorrect'' 401)) \<and>
   (user_findUnique_id s uid = None \<longrightarrow>
      changePassword hsh cmp s now uid data = (Inl (AppError ''User not found'' 404), s)) \<and>
   (\<forall>u. user_findUnique_id s uid = Some u \<and> (passwordHash u = None \<or> passwordHash u = Some []) \<longrightarrow>
      changePassword hsh cmp s now uid data =
        (Inl (AppError ''Account uses social login. Cannot change password.'' 400), s)) \<and>
   (\<forall>u h. user_findUnique_id s uid = Some u \<and> passwordHash u = Some h \<and> h \<noteq> [] \<and>
          \<not> cmp (currentPassword data) h \<longrightarrow>
      changePassword hsh cmp s now uid data = (Inl (AppError ''Current password is incorrect'' 401), s))"
  by (auto simp: changePassword_def Let_def split: option.splits if_splits)

theorem changePassword_failure_atomic_witness:
  "changePassword (hashPassword ''salt2'') comparePassword ex_db0 1000 ''u1''
     \<lparr>currentPassword = ''wrong'', newPassword = ''Efgh5678!''\<rparr> =
     (Inl (AppError ''Current password is incorrect'' 401), ex_db0) \<and>
   changePassword (hashPassword ''salt2'') comparePassword ex_db0 1000 ''u2''
     \<lparr>currentPassword = ''Abcd1234!'', newPassword = ''Efgh5678!''\<rparr> =
     (Inl (AppError ''User not found'' 404), ex_db0)"
  using changePassword_failure_atomic [of "hashPassword ''salt2''" comparePassword ex_db0 1000 "''u1''"
          "\<lparr>currentPassword = ''wrong'', newPassword = ''Efgh5678!''\<rparr>"]
        changePassword_failure_atomic [of "hashPassword ''salt2''" comparePassword ex_db0 1000 "''u2''"
          "\<lparr>currentPassword = ''Abcd1234!'', newPassword = ''Efgh5678!''\<rparr>"]
        ex_db0_find_alice ex_alice_hash
  by simp

section \<open>Refresh for an account that is not active\<close>

text \<open>
  Claim C4, as amended. A refresh token that passes verification and whose record is
  unrevoked and unexpired, presented for an account whose status is not \<open>active\<close>, is answered
  403 with the status in the message, and the store is left unchanged. A token that does not
  pass verification is answered 401 whatever its record and its account are.
\<close>

theorem refresh_inactive_account_forbidden:
  "(verifyRefreshToken env tok now = Some payload \<and>
    refreshToken_findUnique s tok = Some r \<and> revokedAt r = None \<and> \<not> expiresAt r < now \<and>
    user_findUnique_id s (rt_userId r) = Some owner \<and> status owner \<noteq> ''active'' \<longrightarrow>
      refreshTokens env s now rid tok ua ipa = (Inl (AppError (''Account is '' @ status owner) 403), s)) \<and>
   (verifyRefreshToken env tok now = None \<longrightarrow>
      refreshTokens env s now rid tok ua ipa = (Inl (AppError ''Invalid or expired refresh token'' 401), s))"
  by (simp add: refreshTokens_def)

lemma ex_bob_facts:
  "refreshToken_findUnique ex_db_bob ex_bob_token = Some ex_bob_record"
  "revokedAt ex_bob_record = None"
  "expiresAt ex_bob_record = 604801500"
  "rt_userId ex_bob_record = ''u2''"
  "user_findUnique_id ex_db_bob ''u2'' = Some ex_bob"
  "status ex_bob = ''suspended''"
  by (simp_all add: refreshToken_findUnique_def user_findUnique_id_def ex_db_bob_def ex_bob_record_def
      ex_bob_def)

lemma ex_env_secret: "JWT_REFRESH_SECRET ex_env = ''refresh-secret-0123456789-abcdefghi''"
  by (simp add: ex_env_def)

lemma ex_bob_token_issued:
  "generateRefreshToken ex_env ''u2'' ''bob@example.com'' 1500 = Inr ex_bob_token"
  "getExpirationDate (JWT_REFRESH_EXPIRES_IN ex_env) 1500 = Some 604801500"
  by (simp_all add: generateRefreshToken_def getExpirationDate_def ex_env_ttl jwt_sign_def ex_env_secret
      ex_bob_token_def)

lemma ex_bob_token_verify:
  "verifyRefreshToken ex_env ex_bob_token 604800999 =
     Some \<lparr>userId = ''u2'', email = ''bob@example.com'', type = Refresh\<rparr>"
  "verifyRefreshToken ex_env ex_bob_token 604801000 = None"
  by (simp_all add: verifyRefreshToken_def jwt_verify_def ex_env_secret ex_bob_token_def)

theorem refresh_inactive_account_forbidden_witness:
  "refreshTokens ex_env ex_db_bob 604800999 ''r2'' ex_bob_token None None =
     (Inl (AppError ''Account is suspended'' 403), ex_db_bob)"
  using refresh_inactive_account_forbidden
          [of ex_env ex_bob_token 604800999
              "\<lparr>userId = ''u2'', email = ''bob@example.com'', type = Refresh\<rparr>"
              ex_db_bob ex_bob_record ex_bob "''r2''" None None]
        ex_bob_facts ex_bob_token_verify
  by simp

text \<open>
  The claim as first stated fails in the last second of a token's life: the signed expiry
  is counted in whole seconds from the second of issue, the record's expiry in milliseconds
  from the moment of issue. The token issued at 1500 ms with a lifetime of seven days stops
  verifying at 604801000 ms, while its record expires at 604801500 ms.
\<close>

theorem refresh_inactive_account_counterexample:
  "generateRefreshToken ex_env ''u2'' ''bob@example.com'' 1500 = Inr ex_bob_token \<and>
   refreshToken_findUnique ex_db_bob ex_bob_token = Some ex_bob_record \<and>
   revokedAt ex_bob_record = None \<and> 604801000 < expiresAt ex_bob_record \<and>
   user_findUnique_id ex_db_bob (rt_userId ex_bob_record) = Some ex_bob \<and>
   status ex_bob = ''suspended'' \<and>
   refreshTokens ex_env ex_db_bob 604801000 ''r2'' ex_bob_token None None =
     (Inl (AppError ''Invalid or expired refresh token'' 401), ex_db_bob)"
  by (simp add: ex_bob_facts ex_bob_token_issued refreshTokens_def ex_bob_token_verify)

section \<open>Rotation and replay of a refresh token\<close>

lemma find_map_same:
  assumes "\<And>x. P (f x) = P x"
  shows "find P (map f xs) = map_option f (find P xs)"
  by (induction xs) (simp_all add: assms)

lemma find_append_Some: "find P xs = Some a \<Longrightarrow> find P (xs @ ys) = Some a"
  by (induction xs) (auto split: if_splits)

lemma find_filter_Some: "find P xs = Some a \<Longrightarrow> Q a \<Longrightarrow> find P (filter Q xs) = Some a"
  by (induction xs) (auto split: if_splits)

lemma find_Some_mem: "find P xs = Some a \<Longrightarrow> a \<in> set xs \<and> P a"
  by (induction xs) (auto split: if_splits)

lemma beyond_cap_subset:
  "x \<in> set (refreshToken_beyond_cap s uid) \<Longrightarrow>
     x \<in> set (refreshToken_tbl s) \<and> rt_userId x = uid \<and> revokedAt x = None"
proof -
  assume "x \<in> set (refreshToken_beyond_cap s uid)"
  then have "x \<in> set (rev (sort_key createdAt
        (filter (\<lambda>r. rt_userId r = uid \<and> revokedAt r = None) (refreshToken_tbl s))))"
    unfolding refreshToken_beyond_cap_def by (rule in_set_dropD)
  then show ?thesis by simp
qed

lemma deleteMany_nil: "refreshToken_deleteMany s [] = s"
  by (simp add: refreshToken_deleteMany_def)

lemma revokeAll_tbl:
  "refreshToken_tbl (revokeAllUserTokens s now uid) =
     map (\<lambda>r. if rt_userId r = uid \<and> revokedAt r = None then r\<lparr>revokedAt := Some now\<rparr> else r)
       (refreshToken_tbl s)"
  "user_tbl (revokeAllUserTokens s now uid) = user_tbl s"
  by (simp_all add: revokeAllUserTokens_def)

lemma revokeAll_all_revoked:
  assumes "x \<in> set (refreshToken_tbl (revokeAllUserTokens s now uid))" and "rt_userId x = uid"
  shows "revokedAt x \<noteq> None"
proof -
  from assms(1) obtain y where y: "y \<in> set (refreshToken_tbl s)"
    and x: "x = (if rt_userId y = uid \<and> revokedAt y = None then y\<lparr>revokedAt := Some now\<rparr> else y)"
    unfolding revokeAll_tbl by auto
  show ?thesis
  proof (cases "rt_userId y = uid \<and> revokedAt y = None")
    case True
    then show ?thesis using x by simp
  next
    case False
    then have "x = y" using x by simp
    then show ?thesis using False assms(2) by simp
  qed
qed

text \<open>What a successful \<open>storeRefreshToken\<close> leaves, with the two branches of the cleanup joined.\<close>

lemma storeRefreshToken_ok:
  assumes "getExpirationDate (JWT_REFRESH_EXPIRES_IN env) now = Some ex"
    and "\<forall>x \<in> set (refreshToken_tbl s). token x \<noteq> tok \<and> rt_id x \<noteq> rid"
  shows "storeRefreshToken env s now rid uid tok ua ipa =
     (Inr (),
      refreshToken_deleteMany
        (s\<lparr>refreshToken_tbl := refreshToken_tbl s @
              [\<lparr>rt_id = rid, token = tok, rt_userId = uid, createdAt = now,
                expiresAt = ex, revokedAt = None, userAgent = ua, ipAddress = ipa\<rparr>]\<rparr>)
        (map rt_id (refreshToken_beyond_cap
           (s\<lparr>refreshToken_tbl := refreshToken_tbl s @
              [\<lparr>rt_id = rid, token = tok, rt_userId = uid, createdAt = now,
                expiresAt = ex, revokedAt = None, userAgent = ua, ipAddress = ipa\<rparr>]\<rparr>) uid)))"
proof -
  have no: "\<not> (\<exists>r \<in> set (refreshToken_tbl s). token r = tok \<or> rt_id r = rid)"
    using assms(2) by blast
  show ?thesis
    unfolding storeRefreshToken_def assms(1) option.case if_not_P[OF no] Let_def
    by (cases "refreshToken_beyond_cap
           (s\<lparr>refreshToken_tbl := refreshToken_tbl s @
              [\<lparr>rt_id = rid, token = tok, rt_userId = uid, createdAt = now,
                expiresAt = ex, revokedAt = None, userAgent = ua, ipAddress = ipa\<rparr>]\<rparr>) uid")
       (simp_all add: deleteMany_nil)
qed

text \<open>The theft-detection branch, in any state.\<close>

lemma refresh_replay:
  assumes "verifyRefreshToken env tok now = Some payload"
    and "refreshToken_findUnique s tok = Some r" and "revokedAt r \<noteq> None"
    and "user_findUnique_id s (rt_userId r) = Some owner"
  shows "refreshTokens env s now rid tok ua ipa =
           (Inl (AppError ''Refresh token has been revoked'' 401), revokeAllUserTokens s now (rt_userId r))"
  using assms by (simp add: refreshTokens_def)

lemma generateTokenPair_ok:
  assumes "valid_env env"
    and "parseDuration (JWT_ACCESS_EXPIRES_IN env) = Num ta"
    and "parseDuration (JWT_REFRESH_EXPIRES_IN env) = Num tr"
  shows "generateRefreshToken env uid mail now =
           Inr (Jwt (JWT_REFRESH_SECRET env) \<lparr>userId = uid, email = mail, type = Refresh\<rparr>
                  (now div 1000) (now div 1000 + tr))"
    and "generateTokenPair env uid mail now =
           Inr \<lparr>accessToken = Jwt (JWT_ACCESS_SECRET env) \<lparr>userId = uid, email = mail, type = Access\<rparr>
                                 (now div 1000) (now div 1000 + ta),
                refreshToken = Jwt (JWT_REFRESH_SECRET env) \<lparr>userId = uid, email = mail, type = Refresh\<rparr>
                                 (now div 1000) (now div 1000 + tr)\<rparr>"
  using valid_env_secrets[OF assms(1)] assms(2,3)
  by (simp_all add: generateTokenPair_def generateAccessToken_def generateRefreshToken_def jwt_sign_ok)

lemma revoke_tbl:
  "refreshToken_tbl (refreshToken_revoke s rid now) =
     map (\<lambda>r. if rt_id r = rid then r\<lparr>revokedAt := Some now\<rparr> else r) (refreshToken_tbl s)"
  "user_tbl (refreshToken_revoke s rid now) = user_tbl s"
  by (simp_all add: refreshToken_revoke_def)

lemma deleteMany_tbl:
  "refreshToken_tbl (refreshToken_deleteMany s ids) = filter (\<lambda>r. rt_id r \<notin> set ids) (refreshToken_tbl s)"
  "user_tbl (refreshToken_deleteMany s ids) = user_tbl s"
  by (simp_all add: refreshToken_deleteMany_def)

lemma revoke_find:
  assumes "refreshToken_findUnique s tok = Some r"
  shows "refreshToken_findUnique (refreshToken_revoke s (rt_id r) now) tok = Some (r\<lparr>revokedAt := Some now\<rparr>)"
proof -
  let ?g = "\<lambda>x. if rt_id x = rt_id r then x\<lparr>revokedAt := Some now\<rparr> else x"
  have "find (\<lambda>x. token x = tok) (map ?g (refreshToken_tbl s)) =
          map_option ?g (find (\<lambda>x. token x = tok) (refreshToken_tbl s))"
    by (rule find_map_same) simp
  then show ?thesis
    using assms unfolding refreshToken_findUnique_def revoke_tbl by simp
qed

text \<open>A revoked row survives the cleanup of \<open>storeRefreshToken\<close>, which deletes unrevoked rows only.\<close>

lemma store_keeps_revoked:
  assumes "refreshToken_findUnique s1 tok = Some r1" and "revokedAt r1 \<noteq> None"
    and "\<forall>x \<in> set (refreshToken_tbl s1). rt_id x = rt_id r1 \<longrightarrow> revokedAt x \<noteq> None"
    and "rid \<noteq> rt_id r1"
  shows "refreshToken_findUnique
           (refreshToken_deleteMany
              (s1\<lparr>refreshToken_tbl := refreshToken_tbl s1 @ [new\<lparr>rt_id := rid\<rparr>]\<rparr>)
              (map rt_id (refreshToken_beyond_cap
                 (s1\<lparr>refreshToken_tbl := refreshToken_tbl s1 @ [new\<lparr>rt_id := rid\<rparr>]\<rparr>) uid))) tok
         = Some r1"
proof -
  let ?s = "s1\<lparr>refreshToken_tbl := refreshToken_tbl s1 @ [new\<lparr>rt_id := rid\<rparr>]\<rparr>"
  have tbl: "refreshToken_tbl ?s = refreshToken_tbl s1 @ [new\<lparr>rt_id := rid\<rparr>]" by simp
  have a: "find (\<lambda>x. token x = tok) (refreshToken_tbl ?s) = Some r1"
    unfolding tbl using assms(1) unfolding refreshToken_findUnique_def by (rule find_append_Some)
  have b: "rt_id r1 \<notin> set (map rt_id (refreshToken_beyond_cap ?s uid))"
  proof
    assume "rt_id r1 \<in> set (map rt_id (refreshToken_beyond_cap ?s uid))"
    then obtain x where x: "x \<in> set (refreshToken_beyond_cap ?s uid)" and id: "rt_id x = rt_id r1"
      by auto
    from beyond_cap_subset[OF x] have mem: "x \<in> set (refreshToken_tbl ?s)" and un: "revokedAt x = None"
      by simp_all
    from mem have "x \<in> set (refreshToken_tbl s1) \<or> x = new\<lparr>rt_id := rid\<rparr>" unfolding tbl by (simp, blast)
    then show False
    proof
      assume "x \<in> set (refreshToken_tbl s1)"
      with assms(3) id un show False by blast
    next
      assume "x = new\<lparr>rt_id := rid\<rparr>"
      then have "rt_id x = rid" by simp
      with id assms(4) show False by simp
    qed
  qed
  show ?thesis
    unfolding refreshToken_findUnique_def deleteMany_tbl
    using find_filter_Some[OF a, of "\<lambda>r. rt_id r \<notin> set (map rt_id (refreshToken_beyond_cap ?s uid))"] b
    by simp
qed

text \<open>
  What \<open>refreshTokens\<close> does when nothing stands in the way of the insert. Let \<open>T\<close> be a
  refresh token that passes verification, whose record is unrevoked and not past its expiry
  and whose owning account is active, under a valid environment whose durations parse, and
  let no stored row carry the id of the new row or the refresh token the call generates.
  Then the call succeeds and the record of \<open>T\<close> is left revoked. Every later call with \<open>T\<close>
  that still passes verification fails with 401 and leaves every record of the account
  revoked; a later call with \<open>T\<close> past its signed expiry fails with 401 at the first step and
  changes nothing.
\<close>

lemma refresh_rotation_and_replay:
  assumes env: "valid_env env"
    and ta: "parseDuration (JWT_ACCESS_EXPIRES_IN env) = Num ta"
    and tr: "parseDuration (JWT_REFRESH_EXPIRES_IN env) = Num tr"
    and v: "verifyRefreshToken env T now = Some payload"
    and f: "refreshToken_findUnique s T = Some r"
    and live: "revokedAt r = None" "\<not> expiresAt r < now"
    and owner: "user_findUnique_id s (rt_userId r) = Some owner" "status owner = ''active''"
    and fresh: "\<forall>x \<in> set (refreshToken_tbl s). rt_id x \<noteq> rid \<and>
                  Inr (token x) \<noteq> generateRefreshToken env (userId payload) (email payload) now"
  shows "\<exists>tks s'. refreshTokens env s now rid T ua ipa = (Inr tks, s') \<and>
           generateTokenPair env (userId payload) (email payload) now = Inr tks \<and>
           refreshToken tks \<noteq> T \<and>
           (\<exists>r'. refreshToken_findUnique s' T = Some r' \<and> revokedAt r' = Some now) \<and>
           (\<forall>now2 rid2 ua2 ipa2. verifyRefreshToken env T now2 \<noteq> None \<longrightarrow>
               refreshTokens env s' now2 rid2 T ua2 ipa2 =
                 (Inl (AppError ''Refresh token has been revoked'' 401),
                  revokeAllUserTokens s' now2 (rt_userId r)) \<and>
               (\<forall>x \<in> set (refreshToken_tbl (revokeAllUserTokens s' now2 (rt_userId r))).
                   rt_userId x = rt_userId r \<longrightarrow> revokedAt x \<noteq> None)) \<and>
           (\<forall>now2 rid2 ua2 ipa2. verifyRefreshToken env T now2 = None \<longrightarrow>
               refreshTokens env s' now2 rid2 T ua2 ipa2 =
                 (Inl (AppError ''Invalid or expired refresh token'' 401), s'))"
proof -
  let ?uid = "userId payload" and ?mail = "email payload"
  let ?R = "Jwt (JWT_REFRESH_SECRET env) \<lparr>userId = ?uid, email = ?mail, type = Refresh\<rparr>
              (now div 1000) (now div 1000 + tr)"
  let ?tks = "\<lparr>accessToken = Jwt (JWT_ACCESS_SECRET env) \<lparr>userId = ?uid, email = ?mail, type = Access\<rparr>
                                 (now div 1000) (now div 1000 + ta),
               refreshToken = ?R\<rparr>"
  let ?s1 = "refreshToken_revoke s (rt_id r) now"
  let ?new = "\<lparr>rt_id = rid, token = ?R, rt_userId = ?uid, createdAt = now,
               expiresAt = now + tr * 1000, revokedAt = None, userAgent = ua, ipAddress = ipa\<rparr>"
  let ?s1' = "?s1\<lparr>refreshToken_tbl := refreshToken_tbl ?s1 @ [?new]\<rparr>"
  let ?s2 = "refreshToken_deleteMany ?s1' (map rt_id (refreshToken_beyond_cap ?s1' ?uid))"
  let ?r1 = "r\<lparr>revokedAt := Some now\<rparr>"
  have genR: "generateRefreshToken env ?uid ?mail now = Inr ?R"
    and gen: "generateTokenPair env ?uid ?mail now = Inr ?tks"
    using generateTokenPair_ok[OF env ta tr] by simp_all
  have rmem: "r \<in> set (refreshToken_tbl s)" and rtok: "token r = T"
    using find_Some_mem[OF f[unfolded refreshToken_findUnique_def]] by simp_all
  have RT: "?R \<noteq> T" using fresh rmem rtok genR by auto
  have rid_r: "rid \<noteq> rt_id r" using fresh rmem by auto
  have exp: "getExpirationDate (JWT_REFRESH_EXPIRES_IN env) now = Some (now + tr * 1000)"
    by (simp add: getExpirationDate_def tr)
  have fresh1: "\<forall>x \<in> set (refreshToken_tbl ?s1). token x \<noteq> ?R \<and> rt_id x \<noteq> rid"
  proof
    fix x assume "x \<in> set (refreshToken_tbl ?s1)"
    then obtain y where y: "y \<in> set (refreshToken_tbl s)"
      and x: "x = (if rt_id y = rt_id r then y\<lparr>revokedAt := Some now\<rparr> else y)"
      unfolding revoke_tbl set_map by blast
    have "token x = token y" "rt_id x = rt_id y" using x by simp_all
    moreover have "rt_id y \<noteq> rid" "Inr (token y) \<noteq> generateRefreshToken env ?uid ?mail now"
      using fresh y by simp_all
    ultimately show "token x \<noteq> ?R \<and> rt_id x \<noteq> rid" using genR by simp
  qed
  have store: "storeRefreshToken env ?s1 now rid ?uid ?R ua ipa = (Inr (), ?s2)"
    by (rule storeRefreshToken_ok[OF exp fresh1])
  have run: "refreshTokens env s now rid T ua ipa = (Inr ?tks, ?s2)"
    using v f live owner gen store by (simp add: refreshTokens_def Let_def)
  have f1: "refreshToken_findUnique ?s1 T = Some ?r1" by (rule revoke_find[OF f])
  have all1: "\<forall>x \<in> set (refreshToken_tbl ?s1). rt_id x = rt_id ?r1 \<longrightarrow> revokedAt x \<noteq> None"
  proof (intro ballI impI)
    fix x assume "x \<in> set (refreshToken_tbl ?s1)" and id: "rt_id x = rt_id ?r1"
    then obtain y where x: "x = (if rt_id y = rt_id r then y\<lparr>revokedAt := Some now\<rparr> else y)"
      unfolding revoke_tbl set_map by blast
    have "rt_id y = rt_id r" using x id by (simp split: if_splits)
    then show "revokedAt x \<noteq> None" using x by simp
  qed
  have f2: "refreshToken_findUnique ?s2 T = Some ?r1"
    using store_keeps_revoked[OF f1 _ all1, of rid ?new ?uid] rid_r by simp
  have users2: "user_tbl ?s2 = user_tbl s" by (simp add: deleteMany_tbl revoke_tbl)
  have owner2: "user_findUnique_id ?s2 (rt_userId ?r1) = Some owner"
    using owner(1) by (simp add: user_findUnique_id_def users2)
  have replay: "refreshTokens env ?s2 now2 rid2 T ua2 ipa2 =
                 (Inl (AppError ''Refresh token has been revoked'' 401),
                  revokeAllUserTokens ?s2 now2 (rt_userId r))"
    if "verifyRefreshToken env T now2 \<noteq> None" for now2 rid2 ua2 ipa2
  proof -
    from that obtain p2 where p2: "verifyRefreshToken env T now2 = Some p2" by auto
    have "revokedAt ?r1 \<noteq> None" by simp
    from refresh_replay[OF p2 f2 this owner2, of rid2 ua2 ipa2] show ?thesis by simp
  qed
  have expired: "refreshTokens env ?s2 now2 rid2 T ua2 ipa2 =
                 (Inl (AppError ''Invalid or expired refresh token'' 401), ?s2)"
    if "verifyRefreshToken env T now2 = None" for now2 rid2 ua2 ipa2
    using that by (simp add: refreshTokens_def)
  have revoked: "\<forall>x \<in> set (refreshToken_tbl (revokeAllUserTokens ?s2 now2 (rt_userId r))).
                   rt_userId x = rt_userId r \<longrightarrow> revokedAt x \<noteq> None" for now2
    using revokeAll_all_revoked by blast
  have found: "\<exists>r'. refreshToken_findUnique ?s2 T = Some r' \<and> revokedAt r' = Some now"
    using f2 by simp
  have rt: "refreshToken ?tks \<noteq> T" using RT by simp
  show ?thesis
    apply (rule exI[of _ ?tks], rule exI[of _ ?s2])
    using run gen rt found replay expired revoked by blast
qed

text \<open>
  A token issued in an earlier clock second is never generated again: the new token carries
  the current second as \<open>iat\<close>. So for such a token the insert can only collide with another
  row, and the refresh token returned differs from the one presented.
\<close>

lemma refresh_rotation_later_second:
  assumes env: "valid_env env"
    and ta: "parseDuration (JWT_ACCESS_EXPIRES_IN env) = Num ta"
    and tr: "parseDuration (JWT_REFRESH_EXPIRES_IN env) = Num tr"
    and v: "verifyRefreshToken env T now = Some payload"
    and issued: "T = Jwt k p i e" "i < now div 1000"
    and f: "refreshToken_findUnique s T = Some r"
    and live: "revokedAt r = None" "\<not> expiresAt r < now"
    and owner: "user_findUnique_id s (rt_userId r) = Some owner" "status owner = ''active''"
    and others: "\<forall>x \<in> set (refreshToken_tbl s). rt_id x \<noteq> rid \<and>
                  (token x \<noteq> T \<longrightarrow>
                     Inr (token x) \<noteq> generateRefreshToken env (userId payload) (email payload) now)"
  shows "\<exists>tks s'. refreshTokens env s now rid T ua ipa = (Inr tks, s') \<and>
           generateTokenPair env (userId payload) (email payload) now = Inr tks \<and>
           refreshToken tks \<noteq> T \<and>
           (\<exists>r'. refreshToken_findUnique s' T = Some r' \<and> revokedAt r' = Some now)"
proof -
  have gen: "generateRefreshToken env (userId payload) (email payload) now =
          Inr (Jwt (JWT_REFRESH_SECRET env)
                 \<lparr>userId = userId payload, email = email payload, type = Refresh\<rparr>
                 (now div 1000) (now div 1000 + tr))"
    by (rule generateTokenPair_ok(1)[OF env ta tr])
  have neq: "Inr T \<noteq> generateRefreshToken env (userId payload) (email payload) now"
    unfolding gen issued(1) using issued(2) by simp
  have fresh: "\<forall>x \<in> set (refreshToken_tbl s). rt_id x \<noteq> rid \<and>
                  Inr (token x) \<noteq> generateRefreshToken env (userId payload) (email payload) now"
  proof
    fix x assume x: "x \<in> set (refreshToken_tbl s)"
    show "rt_id x \<noteq> rid \<and>
            Inr (token x) \<noteq> generateRefreshToken env (userId payload) (email payload) now"
    proof (cases "token x = T")
      case True
      then show ?thesis using others x neq by simp
    next
      case False
      then show ?thesis using others x by blast
    qed
  qed
  from refresh_rotation_and_replay[OF env ta tr v f live owner fresh, of ua ipa]
  show ?thesis by blast
qed

lemma ex_env_fields:
  "JWT_ACCESS_SECRET ex_env = ''access-secret-0123456789-abcdefghij''"
  "JWT_REFRESH_SECRET ex_env = ''refresh-secret-0123456789-abcdefghi''"
  by (simp_all add: ex_env_def)

lemma ex_alice_token_verify:
  "verifyRefreshToken ex_env ex_alice_token 5000 =
     Some \<lparr>userId = ''u1'', email = ''alice@example.com'', type = Refresh\<rparr>"
  "verifyRefreshToken ex_env ex_alice_token 6000 =
     Some \<lparr>userId = ''u1'', email = ''alice@example.com'', type = Refresh\<rparr>"
  "verifyRefreshToken ex_env ex_alice_token 604801000 = None"
  by (simp_all add: verifyRefreshToken_def jwt_verify_def ex_env_fields ex_alice_token_def)

lemma ex_alice_token_issued:
  "generateRefreshToken ex_env ''u1'' ''alice@example.com'' 1500 = Inr ex_alice_token"
  by (simp add: generateRefreshToken_def ex_env_ttl jwt_sign_def ex_env_fields ex_alice_token_def)

lemma ex_alice_pair2_issued:
  "generateTokenPair ex_env ''u1'' ''alice@example.com'' 5000 = Inr ex_alice_pair2"
  "generateRefreshToken ex_env ''u1'' ''alice@example.com'' 5000 = Inr (refreshToken ex_alice_pair2)"
  by (simp_all add: generateTokenPair_def generateAccessToken_def generateRefreshToken_def ex_env_ttl
      jwt_sign_def ex_env_fields ex_alice_pair2_def)

lemma ex_db_alice_facts:
  "refreshToken_findUnique ex_db_alice ex_alice_token = Some ex_alice_record"
  "user_findUnique_id ex_db_alice ''u1'' = Some ex_alice"
  "refreshToken_tbl ex_db_alice = [ex_alice_record]"
  "rt_userId ex_alice_record = ''u1''" "rt_id ex_alice_record = ''r1''"
  "revokedAt ex_alice_record = None" "expiresAt ex_alice_record = 604801500"
  "token ex_alice_record = ex_alice_token"
  "status ex_alice = ''active''"
  by (simp_all add: refreshToken_findUnique_def user_findUnique_id_def ex_db_alice_def
      ex_alice_record_def ex_alice_def)

lemma ex_rotation:
  "refreshTokens ex_env ex_db_alice 5000 ''r2'' ex_alice_token None None = (Inr ex_alice_pair2, ex_db_alice2)"
proof -
  have tok2: "refreshToken ex_alice_pair2 \<noteq> ex_alice_token"
    by (simp add: ex_alice_pair2_def ex_alice_token_def)
  have exp: "getExpirationDate (JWT_REFRESH_EXPIRES_IN ex_env) 5000 = Some 604805000"
    by (simp add: getExpirationDate_def ex_env_ttl)
  have s1: "refreshToken_revoke ex_db_alice ''r1'' 5000 =
              \<lparr>user_tbl = [ex_alice], refreshToken_tbl = [ex_alice_record\<lparr>revokedAt := Some 5000\<rparr>]\<rparr>"
    by (simp add: refreshToken_revoke_def ex_db_alice_def ex_alice_record_def)
  have store: "storeRefreshToken ex_env
                 \<lparr>user_tbl = [ex_alice], refreshToken_tbl = [ex_alice_record\<lparr>revokedAt := Some 5000\<rparr>]\<rparr>
                 5000 ''r2'' ''u1'' (refreshToken ex_alice_pair2) None None = (Inr (), ex_db_alice2)"
    using tok2
    by (simp add: storeRefreshToken_def exp Let_def refreshToken_beyond_cap_def ex_db_alice2_def
        ex_alice_record2_def ex_db_alice_facts)
  show ?thesis
    by (simp add: refreshTokens_def ex_alice_token_verify ex_db_alice_facts ex_alice_pair2_issued
        s1 store Let_def)
qed


lemma refresh_rotation_and_replay_example:
  "refreshTokens ex_env ex_db_alice 5000 ''r2'' ex_alice_token None None = (Inr ex_alice_pair2, ex_db_alice2) \<and>
   refreshToken ex_alice_pair2 \<noteq> ex_alice_token \<and>
   refreshTokens ex_env ex_db_alice2 6000 ''r3'' ex_alice_token None None =
     (Inl (AppError ''Refresh token has been revoked'' 401), revokeAllUserTokens ex_db_alice2 6000 ''u1'')"
proof -
  have fresh: "\<forall>x \<in> set (refreshToken_tbl ex_db_alice). rt_id x \<noteq> ''r2'' \<and>
      Inr (token x) \<noteq> generateRefreshToken ex_env
         (userId \<lparr>userId = ''u1'', email = ''alice@example.com'', type = Refresh\<rparr>)
         (email \<lparr>userId = ''u1'', email = ''alice@example.com'', type = Refresh\<rparr>) 5000"
    by (simp add: ex_db_alice_facts ex_alice_pair2_issued ex_alice_pair2_def ex_alice_token_def)
  have own: "user_findUnique_id ex_db_alice (rt_userId ex_alice_record) = Some ex_alice"
    by (simp add: ex_db_alice_facts)
  have notexp: "\<not> expiresAt ex_alice_record < 5000" by (simp add: ex_db_alice_facts)
  from refresh_rotation_and_replay
         [OF ex_env_valid ex_env_ttl ex_alice_token_verify(1) ex_db_alice_facts(1) ex_db_alice_facts(6)
             notexp own ex_db_alice_facts(9) fresh, of None None]
  obtain tks s' where run: "refreshTokens ex_env ex_db_alice 5000 ''r2'' ex_alice_token None None = (Inr tks, s')"
    and ne: "refreshToken tks \<noteq> ex_alice_token"
    and replay: "\<forall>now2 rid2 ua2 ipa2. verifyRefreshToken ex_env ex_alice_token now2 \<noteq> None \<longrightarrow>
               refreshTokens ex_env s' now2 rid2 ex_alice_token ua2 ipa2 =
                 (Inl (AppError ''Refresh token has been revoked'' 401),
                  revokeAllUserTokens s' now2 (rt_userId ex_alice_record)) \<and>
               (\<forall>x \<in> set (refreshToken_tbl (revokeAllUserTokens s' now2 (rt_userId ex_alice_record))).
                   rt_userId x = rt_userId ex_alice_record \<longrightarrow> revokedAt x \<noteq> None)"
    by blast
  from run ex_rotation have eq: "tks = ex_alice_pair2" "s' = ex_db_alice2" by simp_all
  have v: "verifyRefreshToken ex_env ex_alice_token 6000 \<noteq> None"
    by (simp add: ex_alice_token_verify)
  from replay [rule_format, OF v, of "''r3''" None None]
  have "refreshTokens ex_env s' 6000 ''r3'' ex_alice_token None None =
          (Inl (AppError ''Refresh token has been revoked'' 401),
           revokeAllUserTokens s' 6000 (rt_userId ex_alice_record))"
    by blast
  then show ?thesis using run ne eq by (simp add: ex_db_alice_facts)
qed

text \<open>
  A replay that comes after the signed expiry of the rotated token does not reach the
  theft-detection branch: the token issued at 1500 ms is rotated at 5000 ms; presented again
  at 604801000 ms it no longer verifies, the call fails at its first step, and the token it
  was rotated into, which is live for four more seconds, stays unrevoked.
\<close>

lemma refresh_replay_after_expiry:
  "generateRefreshToken ex_env ''u1'' ''alice@example.com'' 1500 = Inr ex_alice_token \<and>
   refreshTokens ex_env ex_db_alice 5000 ''r2'' ex_alice_token None None = (Inr ex_alice_pair2, ex_db_alice2) \<and>
   refreshTokens ex_env ex_db_alice2 604801000 ''r3'' ex_alice_token None None =
     (Inl (AppError ''Invalid or expired refresh token'' 401), ex_db_alice2) \<and>
   refreshToken_findUnique ex_db_alice2 (refreshToken ex_alice_pair2) = Some ex_alice_record2 \<and>
   rt_userId ex_alice_record2 = ''u1'' \<and> revokedAt ex_alice_record2 = None \<and>
   604801000 < expiresAt ex_alice_record2"
proof -
  have 1: "refreshTokens ex_env ex_db_alice2 604801000 ''r3'' ex_alice_token None None =
     (Inl (AppError ''Invalid or expired refresh token'' 401), ex_db_alice2)"
    by (simp add: refreshTokens_def ex_alice_token_verify)
  have 2: "refreshToken_findUnique ex_db_alice2 (refreshToken ex_alice_pair2) = Some ex_alice_record2"
    by (simp add: refreshToken_findUnique_def ex_db_alice2_def ex_alice_record_def ex_alice_record2_def
        ex_alice_pair2_def ex_alice_token_def)
  have 3: "rt_userId ex_alice_record2 = ''u1''" "revokedAt ex_alice_record2 = None"
     "604801000 < expiresAt ex_alice_record2"
    by (simp_all add: ex_alice_record2_def)
  from ex_alice_token_issued ex_rotation 1 2 3 show ?thesis by simp
qed

text \<open>
  Claim C1. The claim asks that the first \<open>refreshTokens\<close> call with a token issued to an
  active account and stored as a live record succeeds and returns a different refresh token.
  Tokens are signed without a nonce and with \<open>iat\<close> in whole seconds, so a call in the clock
  second in which the token was issued generates the very same token string again. The
  token issued at 1500 ms, whose record is live and whose account is active, is presented at
  1900 ms: it passes verification, its record is revoked, the pair generated carries the
  presented token as its refresh token, the insert hits the unique constraint, and the call
  fails with the database error, leaving the presented token revoked and the account
  without a usable refresh token.
\<close>

theorem refresh_same_second_collision:
  "generateRefreshToken ex_env ''u1'' ''alice@example.com'' 1500 = Inr ex_alice_token \<and>
   refreshToken_findUnique ex_db_alice ex_alice_token = Some ex_alice_record \<and>
   revokedAt ex_alice_record = None \<and> 1900 < expiresAt ex_alice_record \<and>
   user_findUnique_id ex_db_alice (rt_userId ex_alice_record) = Some ex_alice \<and>
   status ex_alice = ''active'' \<and>
   verifyRefreshToken ex_env ex_alice_token 1900 =
     Some \<lparr>userId = ''u1'', email = ''alice@example.com'', type = Refresh\<rparr> \<and>
   generateRefreshToken ex_env ''u1'' ''alice@example.com'' 1900 = Inr ex_alice_token \<and>
   refreshTokens ex_env ex_db_alice 1900 ''r2'' ex_alice_token None None =
     (Inl (PrismaError ''P2002''),
      \<lparr>user_tbl = [ex_alice], refreshToken_tbl = [ex_alice_record\<lparr>revokedAt := Some 1900\<rparr>]\<rparr>)"
proof -
  have v: "verifyRefreshToken ex_env ex_alice_token 1900 =
     Some \<lparr>userId = ''u1'', email = ''alice@example.com'', type = Refresh\<rparr>"
    by (simp add: verifyRefreshToken_def jwt_verify_def ex_env_fields ex_alice_token_def)
  have g: "generateTokenPair ex_env ''u1'' ''alice@example.com'' 1900 =
      Inr \<lparr>accessToken = Jwt ''access-secret-0123456789-abcdefghij''
                       \<lparr>userId = ''u1'', email = ''alice@example.com'', type = Access\<rparr> 1 901,
            refreshToken = ex_alice_token\<rparr>"
    by (simp add: generateTokenPair_def generateAccessToken_def generateRefreshToken_def ex_env_ttl
      jwt_sign_def ex_env_fields ex_alice_token_def)
  have s1: "refreshToken_revoke ex_db_alice ''r1'' 1900 =
              \<lparr>user_tbl = [ex_alice], refreshToken_tbl = [ex_alice_record\<lparr>revokedAt := Some 1900\<rparr>]\<rparr>"
    by (simp add: refreshToken_revoke_def ex_db_alice_def ex_alice_record_def)
  have exp: "getExpirationDate (JWT_REFRESH_EXPIRES_IN ex_env) 1900 = Some 604801900"
    by (simp add: getExpirationDate_def ex_env_ttl)
  have store: "storeRefreshToken ex_env
                 \<lparr>user_tbl = [ex_alice], refreshToken_tbl = [ex_alice_record\<lparr>revokedAt := Some 1900\<rparr>]\<rparr>
                 1900 ''r2'' ''u1'' ex_alice_token None None =
               (Inl (PrismaError ''P2002''),
                \<lparr>user_tbl = [ex_alice], refreshToken_tbl = [ex_alice_record\<lparr>revokedAt := Some 1900\<rparr>]\<rparr>)"
    by (simp add: storeRefreshToken_def exp ex_db_alice_facts)
  have g2: "generateRefreshToken ex_env ''u1'' ''alice@example.com'' 1900 = Inr ex_alice_token"
    by (simp add: generateRefreshToken_def ex_env_ttl jwt_sign_def ex_env_fields ex_alice_token_def)
  have run: "refreshTokens ex_env ex_db_alice 1900 ''r2'' ex_alice_token None None =
     (Inl (PrismaError ''P2002''),
      \<lparr>user_tbl = [ex_alice], refreshToken_tbl = [ex_alice_record\<lparr>revokedAt := Some 1900\<rparr>]\<rparr>)"
    by (simp add: refreshTokens_def v ex_db_alice_facts g s1 store Let_def)
  from ex_alice_token_issued ex_db_alice_facts v g2 run show ?thesis by simp
qed

section \<open>Password change\<close>

lemma hashPassword_facts:
  "comparePassword q (hashPassword salt p) \<longleftrightarrow> q = p"
  "hashPassword salt p \<noteq> []"
proof -
  have len: "length (take 22 (salt @ replicate 22 (CHR ''.''))) = 22" by simp
  show "comparePassword q (hashPassword salt p) \<longleftrightarrow> q = p"
    unfolding comparePassword_def hashPassword_def using len by auto
  show "hashPassword salt p \<noteq> []"
    unfolding hashPassword_def using len by (metis append_is_Nil_conv length_0_conv zero_neq_numeral)
qed

lemma update_user_tbl:
  "user_tbl (update_user s uid f) = map (\<lambda>u. if u_id u = uid then f u else u) (user_tbl s)"
  "refreshToken_tbl (update_user s uid f) = refreshToken_tbl s"
  by (simp_all add: update_user_def)

lemma update_user_find_id:
  assumes "user_findUnique_id s uid = Some u" and "\<And>x. u_id (f x) = u_id x"
  shows "user_findUnique_id (update_user s uid f) uid = Some (f u)"
proof -
  let ?g = "\<lambda>x. if u_id x = uid then f x else x"
  have "find (\<lambda>x. u_id x = uid) (map ?g (user_tbl s)) = map_option ?g (find (\<lambda>x. u_id x = uid) (user_tbl s))"
    by (rule find_map_same) (simp add: assms(2))
  moreover have "u_id u = uid"
    using find_Some_mem[OF assms(1)[unfolded user_findUnique_id_def]] by simp
  ultimately show ?thesis
    using assms(1) unfolding user_findUnique_id_def update_user_tbl by simp
qed

lemma update_user_find_email:
  assumes "user_findUnique_email s mail = Some u" and "u_id u = uid" and "\<And>x. u_email (f x) = u_email x"
  shows "user_findUnique_email (update_user s uid f) mail = Some (f u)"
proof -
  let ?g = "\<lambda>x. if u_id x = uid then f x else x"
  have "find (\<lambda>x. u_email x = mail) (map ?g (user_tbl s)) =
          map_option ?g (find (\<lambda>x. u_email x = mail) (user_tbl s))"
    by (rule find_map_same) (simp add: assms(3))
  then show ?thesis
    using assms(1,2) unfolding user_findUnique_email_def update_user_tbl by simp
qed

lemma revokeAll_find_user:
  "user_findUnique_id (revokeAllUserTokens s now uid) a = user_findUnique_id s a"
  "user_findUnique_email (revokeAllUserTokens s now uid) mail = user_findUnique_email s mail"
  by (simp_all add: user_findUnique_id_def user_findUnique_email_def revokeAll_tbl)

text \<open>What \<open>changePassword\<close> does when the three checks pass.\<close>

lemma changePassword_ok:
  assumes "user_findUnique_id s uid = Some u" and "passwordHash u = Some h" and "h \<noteq> []"
    and "cmp (currentPassword data) h"
  shows "changePassword hsh cmp s now uid data =
           (Inr (), revokeAllUserTokens
                      (update_user s uid (\<lambda>x. x\<lparr>passwordHash := Some (hsh (newPassword data))\<rparr>)) now uid)"
  using assms by (simp add: changePassword_def Let_def)

text \<open>A login whose credential and status checks pass and whose new token is not yet stored.\<close>

lemma login_ok:
  assumes "user_findUnique_email s (l_email data) = Some u" and "passwordHash u = Some h" and "h \<noteq> []"
    and "cmp (l_password data) h" and "status u = ''active''"
    and "valid_env env"
    and "parseDuration (JWT_ACCESS_EXPIRES_IN env) = Num ta"
    and "parseDuration (JWT_REFRESH_EXPIRES_IN env) = Num tr"
    and "\<forall>x \<in> set (refreshToken_tbl s). rt_id x \<noteq> rid \<and>
           Inr (token x) \<noteq> generateRefreshToken env (u_id u) (u_email u) now"
  shows "\<exists>res s'. login env cmp s now rid data ua ipa = (Inr res, s')"
proof -
  let ?R = "Jwt (JWT_REFRESH_SECRET env) \<lparr>userId = u_id u, email = u_email u, type = Refresh\<rparr>
              (now div 1000) (now div 1000 + tr)"
  let ?s1 = "update_user s (u_id u) (\<lambda>x. x\<lparr>lastLoginAt := Some now\<rparr>)"
  note gen = generateTokenPair_ok[OF assms(6,7,8), of "u_id u" "u_email u" now]
  have exp: "getExpirationDate (JWT_REFRESH_EXPIRES_IN env) now = Some (now + tr * 1000)"
    by (simp add: getExpirationDate_def assms(8))
  have fresh: "\<forall>x \<in> set (refreshToken_tbl ?s1). token x \<noteq> ?R \<and> rt_id x \<noteq> rid"
    using assms(9) gen(1) by (simp add: update_user_tbl)
  from storeRefreshToken_ok[OF exp fresh, of "u_id u" ua ipa]
  obtain s2 where "storeRefreshToken env ?s1 now rid (u_id u) ?R ua ipa = (Inr (), s2)" by blast
  then show ?thesis
    using assms(1-5) gen(2) by (simp add: login_def Let_def)
qed

text \<open>
  Claim C5, as amended. When \<open>changePassword\<close> passes its checks it succeeds; the stored hash
  is then the hash of the new password, which verifies the new password and, when the two
  passwords differ, does not verify the old one; every refresh token record of the account
  is revoked, and \<open>refreshTokens\<close> with any token of the account fails with 401. A login with
  the new password is not rejected for its credentials, and succeeds when the account is
  active and the token it issues can be stored; when the two passwords differ a login with
  the old password fails with 401.
\<close>

theorem changePassword_success:
  assumes found: "user_findUnique_id s uid = Some u"
    and mail: "user_findUnique_email s (u_email u) = Some u"
    and hash: "passwordHash u = Some h"
    and ok: "comparePassword (currentPassword data) h"
  shows "\<exists>s'. changePassword (hashPassword salt) comparePassword s now uid data = (Inr (), s') \<and>
    user_findUnique_id s' uid = Some (u\<lparr>passwordHash := Some (hashPassword salt (newPassword data))\<rparr>) \<and>
    comparePassword (newPassword data) (hashPassword salt (newPassword data)) \<and>
    (currentPassword data \<noteq> newPassword data \<longrightarrow>
       \<not> comparePassword (currentPassword data) (hashPassword salt (newPassword data))) \<and>
    (\<forall>x \<in> set (refreshToken_tbl s'). rt_userId x = uid \<longrightarrow> revokedAt x \<noteq> None) \<and>
    (\<forall>env T r now2 rid2 ua ipa. refreshToken_findUnique s' T = Some r \<and> rt_userId r = uid \<longrightarrow>
       (\<exists>m s''. refreshTokens env s' now2 rid2 T ua ipa = (Inl (AppError m 401), s''))) \<and>
    (\<forall>env now2 rid2 ua ipa m.
       fst (login env comparePassword s' now2 rid2
              \<lparr>l_email = u_email u, l_password = newPassword data\<rparr> ua ipa) \<noteq> Inl (AppError m 401)) \<and>
    (\<forall>env now2 rid2 ua ipa ta tr.
       status u = ''active'' \<and> valid_env env \<and>
       parseDuration (JWT_ACCESS_EXPIRES_IN env) = Num ta \<and>
       parseDuration (JWT_REFRESH_EXPIRES_IN env) = Num tr \<and>
       (\<forall>x \<in> set (refreshToken_tbl s'). rt_id x \<noteq> rid2 \<and>
            Inr (token x) \<noteq> generateRefreshToken env uid (u_email u) now2) \<longrightarrow>
       (\<exists>res s''. login env comparePassword s' now2 rid2
                     \<lparr>l_email = u_email u, l_password = newPassword data\<rparr> ua ipa = (Inr res, s''))) \<and>
    (currentPassword data \<noteq> newPassword data \<longrightarrow>
       (\<forall>env now2 rid2 ua ipa.
          login env comparePassword s' now2 rid2
            \<lparr>l_email = u_email u, l_password = currentPassword data\<rparr> ua ipa =
          (Inl (AppError ''Invalid email or password'' 401), s')))"
proof -
  let ?f = "\<lambda>x. x\<lparr>passwordHash := Some (hashPassword salt (newPassword data))\<rparr>"
  let ?s1 = "update_user s uid ?f"
  let ?s' = "revokeAllUserTokens ?s1 now uid"
  let ?u' = "?f u"
  let ?h' = "hashPassword salt (newPassword data)"
  have hne: "h \<noteq> []" using ok by (auto simp: comparePassword_def)
  have uid: "u_id u = uid"
    using find_Some_mem[OF found[unfolded user_findUnique_id_def]] by simp
  have run: "changePassword (hashPassword salt) comparePassword s now uid data = (Inr (), ?s')"
    using changePassword_ok[where cmp = comparePassword and hsh = "hashPassword salt", OF found hash hne ok] .
  have fid: "user_findUnique_id ?s' uid = Some ?u'"
    unfolding revokeAll_find_user by (rule update_user_find_id[OF found]) simp
  have fmail: "user_findUnique_email ?s' (u_email u) = Some ?u'"
    unfolding revokeAll_find_user by (rule update_user_find_email[OF mail uid]) simp
  have u'h: "passwordHash ?u' = Some ?h'" "status ?u' = status u" "u_id ?u' = uid" "u_email ?u' = u_email u"
    using uid by simp_all
  have cnew: "comparePassword (newPassword data) ?h'" by (simp add: hashPassword_facts)
  have cold: "currentPassword data \<noteq> newPassword data \<longrightarrow> \<not> comparePassword (currentPassword data) ?h'"
    by (simp add: hashPassword_facts)
  have revoked: "\<forall>x \<in> set (refreshToken_tbl ?s'). rt_userId x = uid \<longrightarrow> revokedAt x \<noteq> None"
    using revokeAll_all_revoked by blast
  have refresh: "\<exists>m s''. refreshTokens env ?s' now2 rid2 T ua ipa = (Inl (AppError m 401), s'')"
    if "refreshToken_findUnique ?s' T = Some r \<and> rt_userId r = uid" for env T r now2 rid2 ua ipa
  proof (cases "verifyRefreshToken env T now2")
    case None
    then show ?thesis by (simp add: refreshTokens_def)
  next
    case (Some p)
    from that have fr: "refreshToken_findUnique ?s' T = Some r" and ru: "rt_userId r = uid" by simp_all
    have "r \<in> set (refreshToken_tbl ?s')"
      using find_Some_mem[OF fr[unfolded refreshToken_findUnique_def]] by simp
    with revoked ru have rev: "revokedAt r \<noteq> None" by blast
    have own: "user_findUnique_id ?s' (rt_userId r) = Some ?u'" using fid ru by simp
    from refresh_replay[OF Some fr rev own] show ?thesis by blast
  qed
  have lnew: "fst (login env comparePassword ?s' now2 rid2
              \<lparr>l_email = u_email u, l_password = newPassword data\<rparr> ua ipa) \<noteq> Inl (AppError m 401)"
    for env now2 rid2 ua ipa m
  proof (cases "status u = ''active''")
    case False
    then show ?thesis
      using fmail u'h(1) cnew hashPassword_facts(2) by (simp add: login_def)
  next
    case True
    have ne: "?h' \<noteq> []" by (rule hashPassword_facts(2))
    have e: "user_findUnique_email ?s' (l_email \<lparr>l_email = u_email u, l_password = newPassword data\<rparr>) = Some ?u'"
      using fmail by simp
    have c: "comparePassword (l_password \<lparr>l_email = u_email u, l_password = newPassword data\<rparr>) ?h'"
      using cnew by simp
    have st: "status ?u' = ''active''" using True by simp
    show ?thesis
      using e u'h(1) ne c st issue_not_AppError
      by (fastforce simp: login_def Let_def fst_def split: prod.splits)
  qed
  have lfull: "\<exists>res s''. login env comparePassword ?s' now2 rid2
                     \<lparr>l_email = u_email u, l_password = newPassword data\<rparr> ua ipa = (Inr res, s'')"
    if "status u = ''active'' \<and> valid_env env \<and>
       parseDuration (JWT_ACCESS_EXPIRES_IN env) = Num ta \<and>
       parseDuration (JWT_REFRESH_EXPIRES_IN env) = Num tr \<and>
       (\<forall>x \<in> set (refreshToken_tbl ?s'). rt_id x \<noteq> rid2 \<and>
            Inr (token x) \<noteq> generateRefreshToken env uid (u_email u) now2)"
    for env now2 rid2 ua ipa ta tr
  proof -
    have e: "user_findUnique_email ?s' (l_email \<lparr>l_email = u_email u, l_password = newPassword data\<rparr>) = Some ?u'"
      using fmail by simp
    have c: "comparePassword (l_password \<lparr>l_email = u_email u, l_password = newPassword data\<rparr>) ?h'"
      using cnew by simp
    have st: "status ?u' = ''active''" using that by simp
    have fr: "\<forall>x \<in> set (refreshToken_tbl ?s'). rt_id x \<noteq> rid2 \<and>
           Inr (token x) \<noteq> generateRefreshToken env (u_id ?u') (u_email ?u') now2"
      using that u'h by simp
    from that have v: "valid_env env" and pa: "parseDuration (JWT_ACCESS_EXPIRES_IN env) = Num ta"
      and pr: "parseDuration (JWT_REFRESH_EXPIRES_IN env) = Num tr" by simp_all
    show ?thesis
      using login_ok[where cmp = comparePassword and data = "\<lparr>l_email = u_email u, l_password = newPassword data\<rparr>",
          OF e u'h(1) hashPassword_facts(2) c st v pa pr fr] .
  qed
  have lold: "login env comparePassword ?s' now2 rid2
            \<lparr>l_email = u_email u, l_password = currentPassword data\<rparr> ua ipa =
          (Inl (AppError ''Invalid email or password'' 401), ?s')"
    if "currentPassword data \<noteq> newPassword data" for env now2 rid2 ua ipa
    using that fmail u'h(1) cold hashPassword_facts(2) by (simp add: login_def)
  show ?thesis
  proof (rule exI[of _ ?s'], intro conjI)
    show "changePassword (hashPassword salt) comparePassword s now uid data = (Inr (), ?s')"
      by (rule run)
    show "user_findUnique_id ?s' uid = Some ?u'" by (rule fid)
    show "comparePassword (newPassword data) ?h'" by (rule cnew)
    show "currentPassword data \<noteq> newPassword data \<longrightarrow> \<not> comparePassword (currentPassword data) ?h'"
      by (rule cold)
    show "\<forall>x \<in> set (refreshToken_tbl ?s'). rt_userId x = uid \<longrightarrow> revokedAt x \<noteq> None"
      by (rule revoked)
    show "\<forall>env T r now2 rid2 ua ipa. refreshToken_findUnique ?s' T = Some r \<and> rt_userId r = uid \<longrightarrow>
       (\<exists>m s''. refreshTokens env ?s' now2 rid2 T ua ipa = (Inl (AppError m 401), s''))"
      using refresh by blast
    show "\<forall>env now2 rid2 ua ipa m.
       fst (login env comparePassword ?s' now2 rid2
              \<lparr>l_email = u_email u, l_password = newPassword data\<rparr> ua ipa) \<noteq> Inl (AppError m 401)"
      using lnew by blast
    show "\<forall>env now2 rid2 ua ipa ta tr.
       status u = ''active'' \<and> valid_env env \<and>
       parseDuration (JWT_ACCESS_EXPIRES_IN env) = Num ta \<and>
       parseDuration (JWT_REFRESH_EXPIRES_IN env) = Num tr \<and>
       (\<forall>x \<in> set (refreshToken_tbl ?s'). rt_id x \<noteq> rid2 \<and>
            Inr (token x) \<noteq> generateRefreshToken env uid (u_email u) now2) \<longrightarrow>
       (\<exists>res s''. login env comparePassword ?s' now2 rid2
                     \<lparr>l_email = u_email u, l_password = newPassword data\<rparr> ua ipa = (Inr res, s''))"
      using lfull by blast
    show "currentPassword data \<noteq> newPassword data \<longrightarrow>
       (\<forall>env now2 rid2 ua ipa.
          login env comparePassword ?s' now2 rid2
            \<lparr>l_email = u_email u, l_password = currentPassword data\<rparr> ua ipa =
          (Inl (AppError ''Invalid email or password'' 401), ?s'))"
      using lold by blast
  qed
qed

lemma ex_db_alice_mail: "user_findUnique_email ex_db_alice ''alice@example.com'' = Some ex_alice"
  "u_email ex_alice = ''alice@example.com''" "u_id ex_alice = ''u1''"
  by (simp_all add: user_findUnique_email_def ex_db_alice_def ex_alice_def)

lemma ex_changePassword_new:
  "changePassword (hashPassword ''salt2'') comparePassword ex_db_alice 5000 ''u1''
     \<lparr>currentPassword = ''Abcd1234!'', newPassword = ''Efgh5678!''\<rparr> = (Inr (), ex_db_alice_new)"
  using changePassword_ok[where cmp = comparePassword and hsh = "hashPassword ''salt2''"
      and data = "\<lparr>currentPassword = ''Abcd1234!'', newPassword = ''Efgh5678!''\<rparr>" and now = 5000,
      OF ex_db_alice_facts(2) ex_alice_hash(1) ex_alice_hash(2)] ex_alice_hash(4)
  by (simp add: update_user_def revokeAllUserTokens_def ex_db_alice_def ex_db_alice_new_def
      ex_db_alice_mail ex_db_alice_facts)

theorem changePassword_success_witness:
  "changePassword (hashPassword ''salt2'') comparePassword ex_db_alice 5000 ''u1''
     \<lparr>currentPassword = ''Abcd1234!'', newPassword = ''Efgh5678!''\<rparr> = (Inr (), ex_db_alice_new) \<and>
   login ex_env comparePassword ex_db_alice_new 6000 ''r2''
     \<lparr>l_email = ''alice@example.com'', l_password = ''Abcd1234!''\<rparr> None None =
     (Inl (AppError ''Invalid email or password'' 401), ex_db_alice_new)"
proof -
  have mail: "user_findUnique_email ex_db_alice (u_email ex_alice) = Some ex_alice"
    by (simp add: ex_db_alice_mail)
  have ok: "comparePassword
     (currentPassword \<lparr>currentPassword = ''Abcd1234!'', newPassword = ''Efgh5678!''\<rparr>)
     (hashPassword ''salt'' ''Abcd1234!'')"
    by (simp add: ex_alice_hash)
  from changePassword_success[OF ex_db_alice_facts(2) mail ex_alice_hash(1) ok, of "''salt2''" 5000]
  obtain s' where run: "changePassword (hashPassword ''salt2'') comparePassword ex_db_alice 5000 ''u1''
     \<lparr>currentPassword = ''Abcd1234!'', newPassword = ''Efgh5678!''\<rparr> = (Inr (), s')"
    and old: "currentPassword \<lparr>currentPassword = ''Abcd1234!'', newPassword = ''Efgh5678!''\<rparr>
               \<noteq> newPassword \<lparr>currentPassword = ''Abcd1234!'', newPassword = ''Efgh5678!''\<rparr> \<longrightarrow>
       (\<forall>env now2 rid2 ua ipa.
          login env comparePassword s' now2 rid2
            \<lparr>l_email = u_email ex_alice,
             l_password = currentPassword \<lparr>currentPassword = ''Abcd1234!'', newPassword = ''Efgh5678!''\<rparr>\<rparr> ua ipa =
          (Inl (AppError ''Invalid email or password'' 401), s'))"
    by (elim exE conjE) (rule that, assumption+)
  from run ex_changePassword_new have s': "s' = ex_db_alice_new" by simp
  have "login ex_env comparePassword s' 6000 ''r2''
            \<lparr>l_email = u_email ex_alice,
             l_password = currentPassword \<lparr>currentPassword = ''Abcd1234!'', newPassword = ''Efgh5678!''\<rparr>\<rparr>
            None None = (Inl (AppError ''Invalid email or password'' 401), s')"
    using old by simp
  then show ?thesis using run s' by (simp add: ex_db_alice_mail)
qed

text \<open>
  The claim as first stated fails when the new password is the current one, which neither
  the service nor the request schema excludes: the change succeeds, the stored hash verifies
  the old password, and a login with the old password succeeds.
\<close>

theorem changePassword_same_password_counterexample:
  "changePassword (hashPassword ''salt2'') comparePassword ex_db_alice 5000 ''u1''
     \<lparr>currentPassword = ''Abcd1234!'', newPassword = ''Abcd1234!''\<rparr> = (Inr (), ex_db_alice_pw) \<and>
   user_findUnique_id ex_db_alice_pw ''u1'' = Some ex_alice_pw \<and>
   passwordHash ex_alice_pw = Some (hashPassword ''salt2'' ''Abcd1234!'') \<and>
   comparePassword ''Abcd1234!'' (hashPassword ''salt2'' ''Abcd1234!'') \<and>
   fst (login ex_env comparePassword ex_db_alice_pw 6000 ''r2''
          \<lparr>l_email = ''alice@example.com'', l_password = ''Abcd1234!''\<rparr> None None) =
     Inr \<lparr>user = userSelectFields ex_alice_pw, tokens = ex_alice_pair6\<rparr>"
proof -
  have 1: "changePassword (hashPassword ''salt2'') comparePassword ex_db_alice 5000 ''u1''
     \<lparr>currentPassword = ''Abcd1234!'', newPassword = ''Abcd1234!''\<rparr> = (Inr (), ex_db_alice_pw)"
    using changePassword_ok[where cmp = comparePassword and hsh = "hashPassword ''salt2''"
      and data = "\<lparr>currentPassword = ''Abcd1234!'', newPassword = ''Abcd1234!''\<rparr>" and now = 5000,
      OF ex_db_alice_facts(2) ex_alice_hash(1) ex_alice_hash(2)] ex_alice_hash(4)
    by (simp add: update_user_def revokeAllUserTokens_def ex_db_alice_def ex_db_alice_pw_def
      ex_alice_pw_def ex_db_alice_mail ex_db_alice_facts)
  have 2: "user_findUnique_id ex_db_alice_pw ''u1'' = Some ex_alice_pw"
    "user_findUnique_email ex_db_alice_pw ''alice@example.com'' = Some ex_alice_pw"
    by (simp_all add: user_findUnique_id_def user_findUnique_email_def ex_db_alice_pw_def ex_alice_pw_def
        ex_db_alice_mail)
  have 3: "passwordHash ex_alice_pw = Some (hashPassword ''salt2'' ''Abcd1234!'')"
    "status ex_alice_pw = ''active''" "u_id ex_alice_pw = ''u1''" "u_email ex_alice_pw = ''alice@example.com''"
    by (simp_all add: ex_alice_pw_def ex_db_alice_mail ex_db_alice_facts)
  have 4: "comparePassword ''Abcd1234!'' (hashPassword ''salt2'' ''Abcd1234!'')"
    by (simp add: hashPassword_facts)
  have g: "generateTokenPair ex_env ''u1'' ''alice@example.com'' 6000 = Inr ex_alice_pair6"
    by (simp add: generateTokenPair_def generateAccessToken_def generateRefreshToken_def ex_env_ttl
      jwt_sign_def ex_env_fields ex_alice_pair6_def)
  have exp: "getExpirationDate (JWT_REFRESH_EXPIRES_IN ex_env) 6000 = Some 604806000"
    by (simp add: getExpirationDate_def ex_env_ttl)
  have fresh: "\<forall>x \<in> set (refreshToken_tbl
                   (update_user ex_db_alice_pw ''u1'' (\<lambda>x. x\<lparr>lastLoginAt := Some 6000\<rparr>))).
                 token x \<noteq> refreshToken ex_alice_pair6 \<and> rt_id x \<noteq> ''r2''"
    by (simp add: update_user_tbl ex_db_alice_pw_def ex_alice_record_def ex_alice_pair6_def
        ex_alice_token_def)
  from storeRefreshToken_ok[OF exp fresh, of "''u1''" None None]
  obtain s2 where st: "storeRefreshToken ex_env
      (update_user ex_db_alice_pw ''u1'' (\<lambda>x. x\<lparr>lastLoginAt := Some 6000\<rparr>)) 6000 ''r2'' ''u1''
      (refreshToken ex_alice_pair6) None None = (Inr (), s2)"
    by blast
  have 5: "fst (login ex_env comparePassword ex_db_alice_pw 6000 ''r2''
          \<lparr>l_email = ''alice@example.com'', l_password = ''Abcd1234!''\<rparr> None None) =
     Inr \<lparr>user = userSelectFields ex_alice_pw, tokens = ex_alice_pair6\<rparr>"
    using 2 3 4 g st hashPassword_facts(2) by (simp add: login_def Let_def)
  from 1 2(1) 3(1) 4 5 show ?thesis by simp
qed

section \<open>Concurrent refresh calls\<close>

text \<open>Run one after the other at one clock reading, the two parts are \<open>refreshTokens\<close>.\<close>

lemma refreshTokens_in_two_parts:
  "refreshTokens env s now rid tok ua ipa =
     (case refreshTokens_lookup env s now tok of
        (Inl e, s') \<Rightarrow> (Inl e, s')
      | (Inr (storedToken, payload), s') \<Rightarrow> refreshTokens_rotate env s' now rid storedToken payload ua ipa)"
  by (simp add: refreshTokens_def refreshTokens_lookup_def refreshTokens_rotate_def Let_def
      split: option.splits)

lemma ex_lookup:
  "refreshTokens_lookup ex_env ex_db_alice 5000 ex_alice_token =
     (Inr (ex_alice_record, \<lparr>userId = ''u1'', email = ''alice@example.com'', type = Refresh\<rparr>),
      ex_db_alice)"
  by (simp add: refreshTokens_lookup_def ex_alice_token_verify ex_db_alice_facts)

lemma ex_rotate_first:
  "refreshTokens_rotate ex_env ex_db_alice 5000 ''r2'' ex_alice_record
     \<lparr>userId = ''u1'', email = ''alice@example.com'', type = Refresh\<rparr> None None =
     (Inr ex_alice_pair2, ex_db_alice2)"
  using ex_rotation unfolding refreshTokens_in_two_parts ex_lookup by simp

lemma ex_rotate_second:
  "refreshTokens_rotate ex_env ex_db_alice2 6000 ''r3'' ex_alice_record
     \<lparr>userId = ''u1'', email = ''alice@example.com'', type = Refresh\<rparr> None None =
     (Inr ex_alice_pair6, ex_db_alice_both)"
proof -
  have g: "generateTokenPair ex_env ''u1'' ''alice@example.com'' 6000 = Inr ex_alice_pair6"
    by (simp add: generateTokenPair_def generateAccessToken_def generateRefreshToken_def ex_env_ttl
      jwt_sign_def ex_env_fields ex_alice_pair6_def)
  have exp: "getExpirationDate (JWT_REFRESH_EXPIRES_IN ex_env) 6000 = Some 604806000"
    by (simp add: getExpirationDate_def ex_env_ttl)
  have s1: "refreshToken_revoke ex_db_alice2 ''r1'' 6000 =
              \<lparr>user_tbl = [ex_alice],
               refreshToken_tbl = [ex_alice_record\<lparr>revokedAt := Some 6000\<rparr>, ex_alice_record2]\<rparr>"
    by (simp add: refreshToken_revoke_def ex_db_alice2_def ex_alice_record_def ex_alice_record2_def)
  have store: "storeRefreshToken ex_env
                 \<lparr>user_tbl = [ex_alice],
                  refreshToken_tbl = [ex_alice_record\<lparr>revokedAt := Some 6000\<rparr>, ex_alice_record2]\<rparr>
                 6000 ''r3'' ''u1'' (refreshToken ex_alice_pair6) None None = (Inr (), ex_db_alice_both)"
    by (simp add: storeRefreshToken_def exp Let_def refreshToken_beyond_cap_def ex_db_alice_both_def
        ex_alice_record2_def ex_alice_record_def ex_alice_pair6_def ex_alice_pair2_def ex_alice_token_def)
  show ?thesis
    by (simp add: refreshTokens_rotate_def g s1 store Let_def ex_db_alice_facts)
qed

text \<open>
  Claim C2. The claim asks that of two concurrent calls presenting one live token exactly
  one rotates it and the other ends in the theft-detection branch. The row is read and
  revoked in two separate steps, and the update names the row by its id alone: when the
  second call reads the row before the first call has revoked it, both calls pass the check,
  both revoke the row and both store a new token. With the two insertions in different
  clock seconds both calls succeed, and the account ends with two live tokens descended from
  the one token.
\<close>

theorem concurrent_refresh_both_succeed:
  "run_two ex_env
     [(False, 5000, ''r2''), (True, 5000, ''r3''), (False, 5000, ''r2''), (True, 6000, ''r3'')]
     (Waiting ex_alice_token, Waiting ex_alice_token, ex_db_alice) =
   (Finished (Inr ex_alice_pair2), Finished (Inr ex_alice_pair6), ex_db_alice_both)"
  by (simp add: refresh_step_def ex_lookup ex_rotate_first ex_rotate_second)

text \<open>The same two calls run one after the other: the second ends in the theft-detection branch.\<close>

lemma sequential_refresh_second_rejected:
  "run_two ex_env
     [(False, 5000, ''r2''), (False, 5000, ''r2''), (True, 5000, ''r3''), (True, 6000, ''r3'')]
     (Waiting ex_alice_token, Waiting ex_alice_token, ex_db_alice) =
   (Finished (Inr ex_alice_pair2),
    Finished (Inl (AppError ''Refresh token has been revoked'' 401)),
    revokeAllUserTokens ex_db_alice2 5000 ''u1'')"
proof -
  have "refreshTokens_lookup ex_env ex_db_alice2 5000 ex_alice_token =
          (Inl (AppError ''Refresh token has been revoked'' 401), revokeAllUserTokens ex_db_alice2 5000 ''u1'')"
    by (simp add: refreshTokens_lookup_def ex_alice_token_verify refreshToken_findUnique_def
        user_findUnique_id_def ex_db_alice2_def ex_alice_record_def ex_alice_def)
  then show ?thesis
    by (simp add: refresh_step_def ex_lookup ex_rotate_first)
qed

section \<open>Cap on live sessions\<close>

lemma length_filter_desc:
  "length (filter P (rev (sort_key f xs))) = length (filter P xs)"
  by (simp add: rev_filter[symmetric] filter_sort)

lemma live_count:
  "length (getActiveSessions s t a) =
     length (filter (\<lambda>r. rt_userId r = a \<and> revokedAt r = None \<and> t < expiresAt r) (refreshToken_tbl s))"
  by (simp add: getActiveSessions_def)

lemma set_getActiveSessions:
  "set (getActiveSessions s t a) =
     {r \<in> set (refreshToken_tbl s). rt_userId r = a \<and> revokedAt r = None \<and> t < expiresAt r}"
  by (simp add: getActiveSessions_def)

lemma length_filter_map_le:
  assumes "\<And>x. x \<in> set xs \<Longrightarrow> P (f x) \<Longrightarrow> P x"
  shows "length (filter P (map f xs)) \<le> length (filter P xs)"
  using assms by (induction xs) auto

lemma length_filter_filter_le: "length (filter P (filter R xs)) \<le> length (filter P xs)"
  by (induction xs) auto

lemma sorted_desc_split:
  assumes "sorted_wrt (\<lambda>x y. f y \<le> f x) xs"
    and "\<forall>x \<in> set xs. \<forall>y \<in> set xs. P x \<and> \<not> P y \<longrightarrow> f y < (f x :: int)"
  shows "xs = filter P xs @ filter (\<lambda>x. \<not> P x) xs"
  using assms
proof (induction xs)
  case Nil
  then show ?case by simp
next
  case (Cons x xs)
  have ih: "xs = filter P xs @ filter (\<lambda>x. \<not> P x) xs"
    using Cons by simp
  show ?case
  proof (cases "P x")
    case True
    then show ?thesis using ih by simp
  next
    case False
    have "\<forall>y \<in> set xs. \<not> P y"
    proof
      fix y assume y: "y \<in> set xs"
      show "\<not> P y"
      proof
        assume "P y"
        with Cons.prems(2) False y have "f x < f y" by simp
        moreover from Cons.prems(1) y have "f y \<le> f x" by simp
        ultimately show False by simp
      qed
    qed
    then have "filter P xs = []" "filter (\<lambda>x. \<not> P x) xs = xs"
      by (simp_all add: filter_empty_conv)
    then show ?thesis using False by simp
  qed
qed

lemma sorted_desc_rev_sort: "sorted_wrt (\<lambda>x y. f y \<le> f x) (rev (sort_key f xs))"
  using sorted_sort_key[of f xs] by (simp add: sorted_wrt_rev sorted_map)

lemma storeRefreshToken_success:
  assumes "storeRefreshToken env s now rid uid tok ua ipa = (Inr v, s')"
  shows "\<exists>ex. getExpirationDate (JWT_REFRESH_EXPIRES_IN env) now = Some ex \<and>
           (\<forall>x \<in> set (refreshToken_tbl s). token x \<noteq> tok \<and> rt_id x \<noteq> rid) \<and>
           s' = refreshToken_deleteMany
                  (s\<lparr>refreshToken_tbl := refreshToken_tbl s @
                       [\<lparr>rt_id = rid, token = tok, rt_userId = uid, createdAt = now,
                         expiresAt = ex, revokedAt = None, userAgent = ua, ipAddress = ipa\<rparr>]\<rparr>)
                  (map rt_id (refreshToken_beyond_cap
                     (s\<lparr>refreshToken_tbl := refreshToken_tbl s @
                       [\<lparr>rt_id = rid, token = tok, rt_userId = uid, createdAt = now,
                         expiresAt = ex, revokedAt = None, userAgent = ua, ipAddress = ipa\<rparr>]\<rparr>) uid))"
proof (cases "getExpirationDate (JWT_REFRESH_EXPIRES_IN env) now")
  case None
  then show ?thesis using assms by (simp add: storeRefreshToken_def)
next
  case (Some ex)
  show ?thesis
  proof (cases "\<exists>r \<in> set (refreshToken_tbl s). token r = tok \<or> rt_id r = rid")
    case True
    then show ?thesis using assms Some by (simp add: storeRefreshToken_def)
  next
    case False
    then have fresh: "\<forall>x \<in> set (refreshToken_tbl s). token x \<noteq> tok \<and> rt_id x \<noteq> rid" by blast
    from storeRefreshToken_ok[OF Some fresh, of uid ua ipa] assms Some fresh
    show ?thesis by simp
  qed
qed

text \<open>The rows that survive the cleanup, among the unrevoked rows of the user, are at most ten.\<close>

lemma length_filter_take_drop:
  "length (filter R xs) = length (filter R (take n xs)) + length (filter R (drop n xs))"
  by (metis append_take_drop_id filter_append length_append)

lemma cleanup_keeps_at_most_ten:
  "length (filter (\<lambda>r. rt_id r \<notin> set (map rt_id (drop 10 (rev (sort_key createdAt U))))) U) \<le> 10"
proof -
  let ?D = "drop 10 (rev (sort_key createdAt U))"
  let ?R = "\<lambda>r. rt_id r \<notin> set (map rt_id ?D)"
  let ?L = "rev (sort_key createdAt U)"
  have "length (filter ?R U) = length (filter ?R ?L)" by (simp add: length_filter_desc)
  also have "\<dots> = length (filter ?R (take 10 ?L)) + length (filter ?R ?D)"
    by (rule length_filter_take_drop)
  also have "filter ?R ?D = []" by (simp add: filter_empty_conv)
  finally have "length (filter ?R U) = length (filter ?R (take 10 ?L))" by simp
  also have "\<dots> \<le> length (take 10 ?L)" by (rule length_filter_le)
  also have "\<dots> \<le> 10" by simp
  finally show ?thesis .
qed

lemma store_cap_self:
  assumes "storeRefreshToken env s now rid uid tok ua ipa = (Inr v, s')"
  shows "length (getActiveSessions s' t uid) \<le> 10"
proof -
  from storeRefreshToken_success[OF assms] obtain ex where
    s': "s' = refreshToken_deleteMany
                  (s\<lparr>refreshToken_tbl := refreshToken_tbl s @
                       [\<lparr>rt_id = rid, token = tok, rt_userId = uid, createdAt = now,
                         expiresAt = ex, revokedAt = None, userAgent = ua, ipAddress = ipa\<rparr>]\<rparr>)
                  (map rt_id (refreshToken_beyond_cap
                     (s\<lparr>refreshToken_tbl := refreshToken_tbl s @
                       [\<lparr>rt_id = rid, token = tok, rt_userId = uid, createdAt = now,
                         expiresAt = ex, revokedAt = None, userAgent = ua, ipAddress = ipa\<rparr>]\<rparr>) uid))"
    by blast
  let ?tbl1 = "refreshToken_tbl s @
                       [\<lparr>rt_id = rid, token = tok, rt_userId = uid, createdAt = now,
                         expiresAt = ex, revokedAt = None, userAgent = ua, ipAddress = ipa\<rparr>]"
  let ?U = "filter (\<lambda>r. rt_userId r = uid \<and> revokedAt r = None) ?tbl1"
  let ?D = "drop 10 (rev (sort_key createdAt ?U))"
  let ?R = "\<lambda>r. rt_id r \<notin> set (map rt_id ?D)"
  have tbl': "refreshToken_tbl s' = filter ?R ?tbl1"
    unfolding s' deleteMany_tbl refreshToken_beyond_cap_def by simp
  have "length (getActiveSessions s' t uid) =
          length (filter (\<lambda>r. t < expiresAt r) (filter ?R ?U))"
    unfolding live_count tbl' filter_filter by (rule arg_cong[where f = length], rule filter_cong) auto
  also have "\<dots> \<le> length (filter ?R ?U)" by (rule length_filter_le)
  also have "\<dots> \<le> 10" by (rule cleanup_keeps_at_most_ten)
  finally show ?thesis .
qed

lemma store_cap_other:
  assumes "storeRefreshToken env s now rid uid tok ua ipa = (Inr v, s')" and "a \<noteq> uid"
  shows "length (getActiveSessions s' t a) \<le> length (getActiveSessions s t a)"
proof -
  from storeRefreshToken_success[OF assms(1)] obtain ex ids where
    s': "s' = refreshToken_deleteMany
                  (s\<lparr>refreshToken_tbl := refreshToken_tbl s @
                       [\<lparr>rt_id = rid, token = tok, rt_userId = uid, createdAt = now,
                         expiresAt = ex, revokedAt = None, userAgent = ua, ipAddress = ipa\<rparr>]\<rparr>) ids"
    by blast
  let ?P = "\<lambda>r. rt_userId r = a \<and> revokedAt r = None \<and> t < expiresAt r"
  have "length (getActiveSessions s' t a) \<le>
          length (filter ?P (refreshToken_tbl s @
                       [\<lparr>rt_id = rid, token = tok, rt_userId = uid, createdAt = now,
                         expiresAt = ex, revokedAt = None, userAgent = ua, ipAddress = ipa\<rparr>]))"
  proof -
    have tbl': "refreshToken_tbl s' = filter (\<lambda>r. rt_id r \<notin> set ids) (refreshToken_tbl s @
                       [\<lparr>rt_id = rid, token = tok, rt_userId = uid, createdAt = now,
                         expiresAt = ex, revokedAt = None, userAgent = ua, ipAddress = ipa\<rparr>])"
      by (simp add: s' deleteMany_tbl)
    show ?thesis unfolding live_count tbl' by (rule length_filter_filter_le)
  qed
  also have "\<dots> = length (getActiveSessions s t a)"
    unfolding live_count using assms(2) by simp
  finally show ?thesis .
qed

lemma shrink_revoke:
  "length (getActiveSessions (refreshToken_revoke s i n) t a) \<le> length (getActiveSessions s t a)"
  unfolding live_count revoke_tbl by (rule length_filter_map_le) (simp split: if_splits)

lemma shrink_revokeAll:
  "length (getActiveSessions (revokeAllUserTokens s n u) t a) \<le> length (getActiveSessions s t a)"
  unfolding live_count revokeAll_tbl by (rule length_filter_map_le) (simp split: if_splits)

lemma shrink_deleteMany:
  "length (getActiveSessions (refreshToken_deleteMany s ids) t a) \<le> length (getActiveSessions s t a)"
  unfolding live_count deleteMany_tbl by (rule length_filter_filter_le)

lemma same_update_user:
  "getActiveSessions (update_user s u f) t a = getActiveSessions s t a"
  by (simp add: getActiveSessions_def update_user_tbl)

lemma same_add_user:
  "getActiveSessions (s\<lparr>user_tbl := us\<rparr>) t a = getActiveSessions s t a"
  by (simp add: getActiveSessions_def)

lemma store_cap_inv:
  assumes "storeRefreshToken env s now rid uid tok ua ipa = (res, s')"
    and "\<forall>a. length (getActiveSessions s t a) \<le> 10"
  shows "\<forall>a. length (getActiveSessions s' t a) \<le> 10"
proof (cases res)
  case (Inl e)
  with assms(1) storeRefreshToken_error have "s' = s" by blast
  with assms(2) show ?thesis by simp
next
  case (Inr v)
  show ?thesis
  proof
    fix a
    show "length (getActiveSessions s' t a) \<le> 10"
    proof (cases "a = uid")
      case True
      then show ?thesis using store_cap_self assms(1) Inr by blast
    next
      case False
      have "length (getActiveSessions s' t a) \<le> length (getActiveSessions s t a)"
        using store_cap_other assms(1) Inr False by blast
      with assms(2) show ?thesis using le_trans by blast
    qed
  qed
qed

text \<open>The tail shared by \<open>register\<close>, \<open>login\<close> and \<open>refreshTokens\<close>: issue a pair, store its refresh token.\<close>

lemma issue_cap_inv:
  assumes "(case generateTokenPair env uid mail now of
              Inl e \<Rightarrow> (Inl e, s1)
            | Inr tks \<Rightarrow>
                (case storeRefreshToken env s1 now rid uid2 (refreshToken tks) ua ipa of
                   (Inl e, s2) \<Rightarrow> (Inl e, s2)
                 | (Inr _, s2) \<Rightarrow> (Inr (f tks), s2))) = (res, s')"
    and "\<forall>a. length (getActiveSessions s1 t a) \<le> 10"
  shows "\<forall>a. length (getActiveSessions s' t a) \<le> 10"
proof (cases "generateTokenPair env uid mail now")
  case (Inl e)
  with assms show ?thesis by simp
next
  case (Inr tks)
  obtain r2 s2 where st: "storeRefreshToken env s1 now rid uid2 (refreshToken tks) ua ipa = (r2, s2)"
    by (cases "storeRefreshToken env s1 now rid uid2 (refreshToken tks) ua ipa")
  from store_cap_inv[OF st assms(2)] have cap2: "\<forall>a. length (getActiveSessions s2 t a) \<le> 10" .
  have "s' = s2" using assms(1) Inr st by (cases r2) simp_all
  with cap2 show ?thesis by simp
qed

lemma cap_shrink:
  assumes "\<forall>a. length (getActiveSessions s t a) \<le> 10"
    and "\<And>a. length (getActiveSessions s1 t a) \<le> length (getActiveSessions s t a)"
  shows "\<forall>a. length (getActiveSessions s1 t a) \<le> 10"
  using assms le_trans by blast

lemma register_cap_inv:
  assumes "register env hsh s now uid rid data ua ipa = (res, s')"
    and "\<forall>a. length (getActiveSessions s t a) \<le> 10"
  shows "\<forall>a. length (getActiveSessions s' t a) \<le> 10"
proof (cases "user_findUnique_email s (r_email data)")
  case (Some u)
  with assms show ?thesis by (simp add: register_def)
next
  case None
  show ?thesis
  proof (cases "\<exists>u \<in> set (user_tbl s). u_id u = uid")
    case True
    with assms None show ?thesis by (simp add: register_def)
  next
    case False
    let ?u = "\<lparr>u_id = uid, u_email = r_email data,
                     passwordHash = Some (hsh (r_password data)), name = r_name data,
                     status = ''active'',
                     authProvider = Some ''local'', u_createdAt = now, lastLoginAt = None\<rparr>"
    let ?s1 = "s\<lparr>user_tbl := user_tbl s @ [?u]\<rparr>"
    have cap1: "\<forall>a. length (getActiveSessions ?s1 t a) \<le> 10"
      using assms(2) by (simp add: same_add_user)
    have run: "(case generateTokenPair env (u_id ?u) (u_email ?u) now of
              Inl e \<Rightarrow> (Inl e, ?s1)
            | Inr tks \<Rightarrow>
                (case storeRefreshToken env ?s1 now rid (u_id ?u) (refreshToken tks) ua ipa of
                   (Inl e, s2) \<Rightarrow> (Inl e, s2)
                 | (Inr _, s2) \<Rightarrow> (Inr \<lparr>user = userSelectFields ?u, tokens = tks\<rparr>, s2))) = (res, s')"
      using assms(1) None False unfolding register_def Let_def by simp
    show ?thesis by (rule issue_cap_inv[OF run cap1])
  qed
qed

lemma login_cap_inv:
  assumes "login env cmp s now rid data ua ipa = (res, s')"
    and "\<forall>a. length (getActiveSessions s t a) \<le> 10"
  shows "\<forall>a. length (getActiveSessions s' t a) \<le> 10"
proof (cases "user_findUnique_email s (l_email data)")
  case None
  with assms show ?thesis by (simp add: login_def)
next
  case (Some u)
  note u = Some
  show ?thesis
  proof (cases "passwordHash u")
    case None
    with assms u show ?thesis by (simp add: login_def)
  next
    case (Some h)
    show ?thesis
    proof (cases "h \<noteq> [] \<and> cmp (l_password data) h \<and> status u = ''active''")
      case False
      then have "s' = s" using assms(1) u Some by (auto simp: login_def split: if_splits)
      with assms(2) show ?thesis by simp
    next
      case True
      let ?s1 = "update_user s (u_id u) (\<lambda>x. x\<lparr>lastLoginAt := Some now\<rparr>)"
      have cap1: "\<forall>a. length (getActiveSessions ?s1 t a) \<le> 10"
        using assms(2) by (simp add: same_update_user)
      have run: "(case generateTokenPair env (u_id u) (u_email u) now of
              Inl e \<Rightarrow> (Inl e, ?s1)
            | Inr tks \<Rightarrow>
                (case storeRefreshToken env ?s1 now rid (u_id u) (refreshToken tks) ua ipa of
                   (Inl e, s2) \<Rightarrow> (Inl e, s2)
                 | (Inr _, s2) \<Rightarrow> (Inr \<lparr>user = userSelectFields u, tokens = tks\<rparr>, s2))) = (res, s')"
        using assms(1) u Some True by (simp add: login_def Let_def)
      show ?thesis by (rule issue_cap_inv[OF run cap1])
    qed
  qed
qed

lemma refresh_cap_inv:
  assumes "refreshTokens env s now rid tok ua ipa = (res, s')"
    and "\<forall>a. length (getActiveSessions s t a) \<le> 10"
  shows "\<forall>a. length (getActiveSessions s' t a) \<le> 10"
proof (cases "verifyRefreshToken env tok now")
  case None
  with assms show ?thesis by (simp add: refreshTokens_def)
next
  case (Some payload)
  note p = Some
  show ?thesis
  proof (cases "refreshToken_findUnique s tok")
    case None
    with assms p show ?thesis by (simp add: refreshTokens_def)
  next
    case (Some r)
    note r = Some
    show ?thesis
    proof (cases "user_findUnique_id s (rt_userId r)")
      case None
      with assms p r show ?thesis by (simp add: refreshTokens_def)
    next
      case (Some owner)
      note o = Some
      show ?thesis
      proof (cases "revokedAt r \<noteq> None")
        case True
        then have "s' = revokeAllUserTokens s now (rt_userId r)"
          using assms(1) p r o by (simp add: refreshTokens_def)
        then show ?thesis using cap_shrink[OF assms(2)] shrink_revokeAll by blast
      next
        case False
        note nr = False
        show ?thesis
        proof (cases "expiresAt r < now")
          case True
          then have "s' = refreshToken_deleteMany s [rt_id r]"
            using assms(1) p r o nr by (simp add: refreshTokens_def)
          then show ?thesis using cap_shrink[OF assms(2)] shrink_deleteMany by blast
        next
          case False
          note ne = False
          show ?thesis
          proof (cases "status owner \<noteq> ''active''")
            case True
            then have "s' = s" using assms(1) p r o nr ne by (simp add: refreshTokens_def)
            with assms(2) show ?thesis by simp
          next
            case False
            let ?s1 = "refreshToken_revoke s (rt_id r) now"
            have cap1: "\<forall>a. length (getActiveSessions ?s1 t a) \<le> 10"
              using cap_shrink[OF assms(2)] shrink_revoke by blast
            have run: "(case generateTokenPair env (userId payload) (email payload) now of
                Inl e \<Rightarrow> (Inl e, ?s1)
              | Inr tks \<Rightarrow>
                  (case storeRefreshToken env ?s1 now rid (userId payload) (refreshToken tks) ua ipa of
                     (Inl e, s2) \<Rightarrow> (Inl e, s2)
                   | (Inr _, s2) \<Rightarrow> (Inr tks, s2))) = (res, s')"
              using assms(1) p r o nr ne False unfolding refreshTokens_def Let_def by simp
            show ?thesis by (rule issue_cap_inv[where f = "\<lambda>x. x", OF run cap1])
          qed
        qed
      qed
    qed
  qed
qed

text \<open>Rows with distinct ids: a row is deleted by id exactly when it is one of the rows named.\<close>

lemma distinct_ids_mem:
  assumes "distinct (map rt_id xs)" and "set ds \<subseteq> set xs" and "x \<in> set xs"
  shows "rt_id x \<in> set (map rt_id ds) \<longleftrightarrow> x \<in> set ds"
proof
  assume "rt_id x \<in> set (map rt_id ds)"
  then obtain d where d: "d \<in> set ds" and eq: "rt_id d = rt_id x" by auto
  from d assms(2) have "d \<in> set xs" by blast
  with assms(1,3) eq have "d = x" by (meson distinct_map inj_onD)
  with d show "x \<in> set ds" by simp
next
  assume "x \<in> set ds"
  then show "rt_id x \<in> set (map rt_id ds)" by simp
qed

lemma filter_notin:
  "x \<in> A \<Longrightarrow> x \<notin> set (filter (\<lambda>r. r \<notin> A) xs)"
  "x \<in> set xs \<Longrightarrow> x \<notin> set (filter (\<lambda>r. r \<notin> A) xs) \<Longrightarrow> x \<in> A"
  "y \<in> set (filter (\<lambda>r. r \<notin> A) xs) \<Longrightarrow> y \<in> set xs \<and> y \<notin> A"
  by simp_all

lemma take_drop_of_append:
  assumes "xs = a @ b" and "n \<le> length a"
  shows "take n xs = take n a" and "drop n xs = drop n a @ b"
  using assms by simp_all

text \<open>
  The eleventh token. The account holds ten live rows; its expired rows that were never
  revoked, if any, are older than the present and than the live ones; ids are unique.
\<close>

lemma eleventh_token:
  fixes s :: db and now tr :: int
  defines "new \<equiv> \<lambda>rid tok uid ua ipa. \<lparr>rt_id = rid, token = tok, rt_userId = uid, createdAt = now,
              expiresAt = now + tr * 1000, revokedAt = None, userAgent = ua, ipAddress = ipa\<rparr>"
  assumes run: "storeRefreshToken env s now rid uid tok ua ipa = (Inr v, s')"
    and ttl: "parseDuration (JWT_REFRESH_EXPIRES_IN env) = Num tr" "0 < tr"
    and ids: "distinct (map rt_id (refreshToken_tbl s))"
    and ten: "length (getActiveSessions s now uid) = 10"
    and old: "\<forall>y \<in> set (refreshToken_tbl s).
                rt_userId y = uid \<and> revokedAt y = None \<and> expiresAt y \<le> now \<longrightarrow>
                createdAt y < now \<and> (\<forall>x \<in> set (getActiveSessions s now uid). createdAt y < createdAt x)"
  shows "length (getActiveSessions s' now uid) = 10"
    and "\<exists>x \<in> set (getActiveSessions s now uid) \<union> {new rid tok uid ua ipa}. x \<notin> set (refreshToken_tbl s')"
    and "\<forall>x \<in> set (refreshToken_tbl s) \<union> {new rid tok uid ua ipa}.
           rt_userId x = uid \<and> revokedAt x = None \<and> x \<notin> set (refreshToken_tbl s') \<longrightarrow>
           (\<forall>y \<in> set (getActiveSessions s' now uid). createdAt x \<le> createdAt y)"
proof -
  let ?new = "new rid tok uid ua ipa"
  let ?Q = "\<lambda>r. rt_userId r = uid \<and> revokedAt r = None"
  let ?Lv = "\<lambda>r. now < expiresAt r"
  let ?tbl = "refreshToken_tbl s"
  let ?tbl1 = "?tbl @ [?new]"
  let ?U = "filter ?Q ?tbl1"
  let ?L = "rev (sort_key createdAt ?U)"
  let ?D = "drop 10 ?L"
  let ?K = "take 10 ?L"
  let ?A = "filter ?Lv ?L"
  let ?B = "filter (\<lambda>r. \<not> ?Lv r) ?L"
  have newf: "rt_id ?new = rid" "rt_userId ?new = uid" "revokedAt ?new = None"
    "createdAt ?new = now" "expiresAt ?new = now + tr * 1000"
    by (simp_all add: new_def)
  have newlive: "?Lv ?new" using ttl(2) newf(5) by simp
  have exp: "getExpirationDate (JWT_REFRESH_EXPIRES_IN env) now = Some (now + tr * 1000)"
    by (simp add: getExpirationDate_def ttl(1))
  from storeRefreshToken_success[OF run] exp
  have fresh: "\<forall>x \<in> set ?tbl. token x \<noteq> tok \<and> rt_id x \<noteq> rid"
    and s': "s' = refreshToken_deleteMany (s\<lparr>refreshToken_tbl := ?tbl1\<rparr>)
                   (map rt_id (refreshToken_beyond_cap (s\<lparr>refreshToken_tbl := ?tbl1\<rparr>) uid))"
    by (simp_all add: new_def)
  have tbl': "refreshToken_tbl s' = filter (\<lambda>r. rt_id r \<notin> set (map rt_id ?D)) ?tbl1"
    unfolding s' deleteMany_tbl refreshToken_beyond_cap_def by simp
  have ids1: "distinct (map rt_id ?tbl1)"
    using ids fresh newf(1) by (auto simp: image_iff)
  have setL: "set ?L = set ?U" by simp
  have DsubL: "set ?D \<subseteq> set ?L" by (rule set_drop_subset)
  have Dsub: "set ?D \<subseteq> set ?tbl1" using DsubL setL by auto
  have del: "rt_id x \<in> set (map rt_id ?D) \<longleftrightarrow> x \<in> set ?D" if "x \<in> set ?tbl1" for x
    by (rule distinct_ids_mem[OF ids1 Dsub that])
  have tbl'': "refreshToken_tbl s' = filter (\<lambda>r. r \<notin> set ?D) ?tbl1"
    unfolding tbl'
  proof (rule filter_cong[OF refl])
    fix x assume "x \<in> set ?tbl1"
    from del[OF this] show "(rt_id x \<notin> set (map rt_id ?D)) = (x \<notin> set ?D)"
      by (rule arg_cong[of _ _ Not])
  qed
  have dist1: "distinct ?tbl1" using ids1 by (rule distinct_map[THEN iffD1, THEN conjunct1])
  have distU: "distinct ?U" using dist1 by (rule distinct_filter)
  have distL: "distinct ?L" unfolding distinct_rev distinct_sort by (rule distU)
  have KD: "?L = ?K @ ?D" by simp
  have "distinct (?K @ ?D)" using distL by simp
  then have disj: "set ?K \<inter> set ?D = {}" unfolding distinct_append by blast
  have sortedL: "sorted_wrt (\<lambda>x y. createdAt y \<le> createdAt x) ?L"
    by (rule sorted_desc_rev_sort)
  have memU: "x \<in> set ?U \<longleftrightarrow> (x \<in> set ?tbl \<and> ?Q x) \<or> x = ?new" for x
    using newf by auto
  have live_s: "set (getActiveSessions s now uid) = {r \<in> set ?tbl. ?Q r \<and> ?Lv r}"
    unfolding set_getActiveSessions by auto
  have order: "\<forall>x \<in> set ?L. \<forall>y \<in> set ?L. ?Lv x \<and> \<not> ?Lv y \<longrightarrow> createdAt y < createdAt x"
  proof (intro ballI impI)
    fix x y assume x: "x \<in> set ?L" and y: "y \<in> set ?L" and xy: "?Lv x \<and> \<not> ?Lv y"
    from y xy newlive have yold: "y \<in> set ?tbl" "?Q y" "expiresAt y \<le> now"
      using memU[of y] setL by auto
    with old have y1: "createdAt y < now"
      and y2: "\<forall>x \<in> set (getActiveSessions s now uid). createdAt y < createdAt x"
      by blast+
    from x have "(x \<in> set ?tbl \<and> ?Q x) \<or> x = ?new" using memU[of x] setL by blast
    then show "createdAt y < createdAt x"
    proof
      assume "x \<in> set ?tbl \<and> ?Q x"
      with xy have "x \<in> set (getActiveSessions s now uid)" unfolding live_s by simp
      with y2 show ?thesis by blast
    next
      assume "x = ?new"
      with y1 newf(4) show ?thesis by simp
    qed
  qed
  have AB: "?L = ?A @ ?B" by (rule sorted_desc_split[OF sortedL order])
  have lenA: "length ?A = 11"
  proof -
    have "length ?A = length (filter ?Lv ?U)" by (rule length_filter_desc)
    also have "\<dots> = length (filter ?Lv (filter ?Q ?tbl)) + 1"
      using newf newlive by simp
    also have "filter ?Lv (filter ?Q ?tbl) = filter (\<lambda>r. rt_userId r = uid \<and> revokedAt r = None \<and> now < expiresAt r) ?tbl"
      unfolding filter_filter by (rule filter_cong) auto
    finally show ?thesis using ten unfolding live_count by simp
  qed
  have K: "?K = take 10 ?A" and D: "?D = drop 10 ?A @ ?B"
    using take_drop_of_append[OF AB, of 10] lenA by simp_all
  show goal1: "length (getActiveSessions s' now uid) = 10"
  proof -
    let ?P = "\<lambda>r. r \<notin> set ?D \<and> ?Lv r"
    have "length (getActiveSessions s' now uid) = length (filter ?P ?U)"
      unfolding live_count tbl'' filter_filter by (rule arg_cong[where f = length], rule filter_cong) auto
    also have "\<dots> = length (filter ?P ?L)" by (rule length_filter_desc[symmetric])
    also have "\<dots> = length (filter ?P ?K) + length (filter ?P ?D)"
      by (rule length_filter_take_drop)
    also have "filter ?P ?D = []" by (simp add: filter_empty_conv)
    also have "filter ?P ?K = ?K"
    proof (rule filter_True)
      show "\<forall>x \<in> set ?K. ?P x"
      proof
        fix x assume x: "x \<in> set ?K"
        then have "x \<notin> set ?D" using disj by blast
        moreover from x have "x \<in> set (take 10 ?A)" using K by simp
        then have "x \<in> set ?A" by (rule in_set_takeD)
        then have "?Lv x" by simp
        ultimately show "?P x" by simp
      qed
    qed
    also have "length ?K = 10" using K lenA by simp
    finally show ?thesis by simp
  qed
  show "\<exists>x \<in> set (getActiveSessions s now uid) \<union> {?new}. x \<notin> set (refreshToken_tbl s')"
  proof -
    have "drop 10 ?A \<noteq> []" using lenA by simp
    then obtain x where x: "x \<in> set (drop 10 ?A)" by (meson last_in_set)
    then have xA: "x \<in> set ?A" by (rule in_set_dropD)
    then have xl: "?Lv x" and xU: "x \<in> set ?U" by auto
    from x have xD: "x \<in> set ?D" using D by simp
    then have "x \<notin> set (refreshToken_tbl s')" unfolding tbl'' by (rule filter_notin(1))
    moreover have "x \<in> set (getActiveSessions s now uid) \<union> {?new}"
      using xU xl memU[of x] unfolding live_s by blast
    ultimately show ?thesis by blast
  qed
  show "\<forall>x \<in> set ?tbl \<union> {?new}.
           rt_userId x = uid \<and> revokedAt x = None \<and> x \<notin> set (refreshToken_tbl s') \<longrightarrow>
           (\<forall>y \<in> set (getActiveSessions s' now uid). createdAt x \<le> createdAt y)"
  proof (intro ballI impI)
    fix x y
    assume x: "x \<in> set ?tbl \<union> {?new}"
      and xq: "rt_userId x = uid \<and> revokedAt x = None \<and> x \<notin> set (refreshToken_tbl s')"
      and y: "y \<in> set (getActiveSessions s' now uid)"
    from x have x1: "x \<in> set ?tbl1" by auto
    moreover from xq have "x \<notin> set (refreshToken_tbl s')" by simp
    ultimately have xD: "x \<in> set ?D" unfolding tbl'' by (rule filter_notin(2))
    from y have y': "y \<in> set (refreshToken_tbl s')" and yq: "?Q y"
      unfolding set_getActiveSessions by auto
    from y' have y1: "y \<in> set ?tbl1 \<and> y \<notin> set ?D" unfolding tbl'' by (rule filter_notin(3))
    with yq have "y \<in> set ?U" unfolding set_filter by blast
    then have "y \<in> set ?L" unfolding setL .
    from y1 have \<open>y \<notin> set ?D\<close> by simp
    have "set ?L = set ?K \<union> set ?D" by (metis append_take_drop_id set_append)
    with \<open>y \<in> set ?L\<close> \<open>y \<notin> set ?D\<close> have yK: "y \<in> set ?K" by blast
    from sortedL have "sorted_wrt (\<lambda>x y. createdAt y \<le> createdAt x) (?K @ ?D)" by simp
    then have "\<forall>k \<in> set ?K. \<forall>d \<in> set ?D. createdAt d \<le> createdAt k"
      unfolding sorted_wrt_append by blast
    with yK xD show "createdAt x \<le> createdAt y" by blast
  qed
qed

text \<open>
  Claim C6. A successful \<open>storeRefreshToken\<close> leaves the user at most ten unrevoked, hence
  at most ten live, refresh token rows. \<open>register\<close>, \<open>login\<close> and \<open>refreshTokens\<close>, whatever
  their outcome, keep every account within ten live rows when every account was within ten
  before. When the user holds ten live rows (ids being unique, the new token being live, and
  the user's expired unrevoked rows, if any, being older than the present and than the live
  rows), storing an eleventh leaves exactly ten live rows; one of the eleven is deleted, and
  every deleted row is at most as recent as every live row that remains.
\<close>

theorem session_cap:
  "(\<forall>v s'. storeRefreshToken env s now rid uid tok ua ipa = (Inr v, s') \<longrightarrow>
       (\<forall>t. length (getActiveSessions s' t uid) \<le> 10)) \<and>
   (\<forall>t. (\<forall>a. length (getActiveSessions s t a) \<le> 10) \<longrightarrow>
       (\<forall>hsh rdata res s'. register env hsh s now uid rid rdata ua ipa = (res, s') \<longrightarrow>
           (\<forall>a. length (getActiveSessions s' t a) \<le> 10)) \<and>
       (\<forall>cmp ldata res s'. login env cmp s now rid ldata ua ipa = (res, s') \<longrightarrow>
           (\<forall>a. length (getActiveSessions s' t a) \<le> 10)) \<and>
       (\<forall>res s'. refreshTokens env s now rid tok ua ipa = (res, s') \<longrightarrow>
           (\<forall>a. length (getActiveSessions s' t a) \<le> 10))) \<and>
   (\<forall>v s' tr. storeRefreshToken env s now rid uid tok ua ipa = (Inr v, s') \<and>
       parseDuration (JWT_REFRESH_EXPIRES_IN env) = Num tr \<and> 0 < tr \<and>
       distinct (map rt_id (refreshToken_tbl s)) \<and>
       length (getActiveSessions s now uid) = 10 \<and>
       (\<forall>y \<in> set (refreshToken_tbl s).
           rt_userId y = uid \<and> revokedAt y = None \<and> expiresAt y \<le> now \<longrightarrow>
           createdAt y < now \<and> (\<forall>x \<in> set (getActiveSessions s now uid). createdAt y < createdAt x)) \<longrightarrow>
       length (getActiveSessions s' now uid) = 10 \<and>
       (\<exists>x \<in> set (getActiveSessions s now uid) \<union>
              {\<lparr>rt_id = rid, token = tok, rt_userId = uid, createdAt = now,
                expiresAt = now + tr * 1000, revokedAt = None, userAgent = ua, ipAddress = ipa\<rparr>}.
           x \<notin> set (refreshToken_tbl s')) \<and>
       (\<forall>x \<in> set (refreshToken_tbl s) \<union>
              {\<lparr>rt_id = rid, token = tok, rt_userId = uid, createdAt = now,
                expiresAt = now + tr * 1000, revokedAt = None, userAgent = ua, ipAddress = ipa\<rparr>}.
           rt_userId x = uid \<and> revokedAt x = None \<and> x \<notin> set (refreshToken_tbl s') \<longrightarrow>
           (\<forall>y \<in> set (getActiveSessions s' now uid). createdAt x \<le> createdAt y)))"
proof (intro conjI allI impI)
  fix v s' t
  assume "storeRefreshToken env s now rid uid tok ua ipa = (Inr v, s')"
  then show "length (getActiveSessions s' t uid) \<le> 10" by (rule store_cap_self)
next
  fix t hsh rdata res s' a
  assume "\<forall>a. length (getActiveSessions s t a) \<le> 10"
    and "register env hsh s now uid rid rdata ua ipa = (res, s')"
  from register_cap_inv[OF this(2,1)] show "length (getActiveSessions s' t a) \<le> 10" by blast
next
  fix t cmp ldata res s' a
  assume "\<forall>a. length (getActiveSessions s t a) \<le> 10"
    and "login env cmp s now rid ldata ua ipa = (res, s')"
  from login_cap_inv[OF this(2,1)] show "length (getActiveSessions s' t a) \<le> 10" by blast
next
  fix t res s' a
  assume "\<forall>a. length (getActiveSessions s t a) \<le> 10"
    and "refreshTokens env s now rid tok ua ipa = (res, s')"
  from refresh_cap_inv[OF this(2,1)] show "length (getActiveSessions s' t a) \<le> 10" by blast
next
  fix v s' tr
  assume a: "storeRefreshToken env s now rid uid tok ua ipa = (Inr v, s') \<and>
       parseDuration (JWT_REFRESH_EXPIRES_IN env) = Num tr \<and> 0 < tr \<and>
       distinct (map rt_id (refreshToken_tbl s)) \<and>
       length (getActiveSessions s now uid) = 10 \<and>
       (\<forall>y \<in> set (refreshToken_tbl s).
           rt_userId y = uid \<and> revokedAt y = None \<and> expiresAt y \<le> now \<longrightarrow>
           createdAt y < now \<and> (\<forall>x \<in> set (getActiveSessions s now uid). createdAt y < createdAt x))"
  then have run: "storeRefreshToken env s now rid uid tok ua ipa = (Inr v, s')"
    and ttl: "parseDuration (JWT_REFRESH_EXPIRES_IN env) = Num tr" "0 < tr"
    and ids: "distinct (map rt_id (refreshToken_tbl s))"
    and ten: "length (getActiveSessions s now uid) = 10"
    and old: "\<forall>y \<in> set (refreshToken_tbl s).
           rt_userId y = uid \<and> revokedAt y = None \<and> expiresAt y \<le> now \<longrightarrow>
           createdAt y < now \<and> (\<forall>x \<in> set (getActiveSessions s now uid). createdAt y < createdAt x)"
    by blast+
  note e = eleventh_token[OF run ttl ids ten old]
  show "length (getActiveSessions s' now uid) = 10" by (rule e(1))
  show "\<exists>x \<in> set (getActiveSessions s now uid) \<union>
              {\<lparr>rt_id = rid, token = tok, rt_userId = uid, createdAt = now,
                expiresAt = now + tr * 1000, revokedAt = None, userAgent = ua, ipAddress = ipa\<rparr>}.
           x \<notin> set (refreshToken_tbl s')" by (rule e(2))
  show "\<forall>x \<in> set (refreshToken_tbl s) \<union>
              {\<lparr>rt_id = rid, token = tok, rt_userId = uid, createdAt = now,
                expiresAt = now + tr * 1000, revokedAt = None, userAgent = ua, ipAddress = ipa\<rparr>}.
           rt_userId x = uid \<and> revokedAt x = None \<and> x \<notin> set (refreshToken_tbl s') \<longrightarrow>
           (\<forall>y \<in> set (getActiveSessions s' now uid). createdAt x \<le> createdAt y)" by (rule e(3))
qed


lemma ex_session_fields:
  "rt_id (ex_session i r) = r" "rt_userId (ex_session i r) = ''u1''"
  "revokedAt (ex_session i r) = None" "createdAt (ex_session i r) = i * 1000"
  "expiresAt (ex_session i r) = i * 1000 + 604800000"
  "token (ex_session i r) =
     Jwt ''refresh-secret-0123456789-abcdefghi''
       \<lparr>userId = ''u1'', email = ''alice@example.com'', type = Refresh\<rparr> i (i + 604800)"
  by (simp_all add: ex_session_def)

lemma ex_db_ten_tbl:
  "refreshToken_tbl ex_db_ten =
        [ex_session 1 ''r01'', ex_session 2 ''r02'', ex_session 3 ''r03'', ex_session 4 ''r04'',
         ex_session 5 ''r05'', ex_session 6 ''r06'', ex_session 7 ''r07'', ex_session 8 ''r08'',
         ex_session 9 ''r09'', ex_session 10 ''r10'']"
  by (simp add: ex_db_ten_def)

lemma ex_db_ten_live: "length (getActiveSessions ex_db_ten 20000 ''u1'') = 10"
  unfolding live_count ex_db_ten_tbl by (simp add: ex_session_fields)

lemma ex_db_ten_ids: "distinct (map rt_id (refreshToken_tbl ex_db_ten))"
  unfolding ex_db_ten_tbl by (simp add: ex_session_fields)

lemma ex_db_ten_fresh:
  "\<forall>x \<in> set (refreshToken_tbl ex_db_ten). token x \<noteq> token (ex_session 20 ''r11'') \<and> rt_id x \<noteq> ''r11''"
  unfolding ex_db_ten_tbl by (simp add: ex_session_fields)

lemma ex_db_ten_old:
  "\<forall>y \<in> set (refreshToken_tbl ex_db_ten).
           rt_userId y = ''u1'' \<and> revokedAt y = None \<and> expiresAt y \<le> 20000 \<longrightarrow>
           createdAt y < 20000 \<and> (\<forall>x \<in> set (getActiveSessions ex_db_ten 20000 ''u1''). createdAt y < createdAt x)"
  unfolding ex_db_ten_tbl by (simp add: ex_session_fields)

lemma ex_eleventh_evicts_oldest:
  "map rt_id (refreshToken_tbl (snd (storeRefreshToken ex_env ex_db_ten 20000 ''r11'' ''u1''
      (token (ex_session 20 ''r11'')) None None))) =
   [''r02'', ''r03'', ''r04'', ''r05'', ''r06'', ''r07'', ''r08'', ''r09'', ''r10'', ''r11'']"
proof -
  have exp: "getExpirationDate (JWT_REFRESH_EXPIRES_IN ex_env) 20000 = Some 604820000"
    by (simp add: getExpirationDate_def ex_env_ttl)
  show ?thesis
    unfolding storeRefreshToken_ok[OF exp ex_db_ten_fresh, of "''u1''" None None]
    by (simp add: deleteMany_tbl refreshToken_beyond_cap_def ex_db_ten_tbl ex_session_fields)
qed

theorem session_cap_witness:
  "fst (storeRefreshToken ex_env ex_db_ten 20000 ''r11'' ''u1'' (token (ex_session 20 ''r11'')) None None) = Inr () \<and>
   length (getActiveSessions ex_db_ten 20000 ''u1'') = 10 \<and>
   length (getActiveSessions
             (snd (storeRefreshToken ex_env ex_db_ten 20000 ''r11'' ''u1''
                     (token (ex_session 20 ''r11'')) None None)) 20000 ''u1'') = 10 \<and>
   map rt_id (refreshToken_tbl (snd (storeRefreshToken ex_env ex_db_ten 20000 ''r11'' ''u1''
      (token (ex_session 20 ''r11'')) None None))) =
   [''r02'', ''r03'', ''r04'', ''r05'', ''r06'', ''r07'', ''r08'', ''r09'', ''r10'', ''r11'']"
proof -
  let ?st = "storeRefreshToken ex_env ex_db_ten 20000 ''r11'' ''u1'' (token (ex_session 20 ''r11'')) None None"
  have exp: "getExpirationDate (JWT_REFRESH_EXPIRES_IN ex_env) 20000 = Some 604820000"
    by (simp add: getExpirationDate_def ex_env_ttl)
  from storeRefreshToken_ok[OF exp ex_db_ten_fresh, of "''u1''" None None]
  have f: "fst ?st = Inr ()" by simp
  then have run: "?st = (Inr (), snd ?st)" by (metis prod.collapse)
  have pos: "(0::int) < 604800" by simp
  from session_cap[of ex_env ex_db_ten 20000 "''r11''" "''u1''" "token (ex_session 20 ''r11'')" None None]
  have "\<forall>v s' tr. ?st = (Inr v, s') \<and>
       parseDuration (JWT_REFRESH_EXPIRES_IN ex_env) = Num tr \<and> 0 < tr \<and>
       distinct (map rt_id (refreshToken_tbl ex_db_ten)) \<and>
       length (getActiveSessions ex_db_ten 20000 ''u1'') = 10 \<and>
       (\<forall>y \<in> set (refreshToken_tbl ex_db_ten).
           rt_userId y = ''u1'' \<and> revokedAt y = None \<and> expiresAt y \<le> 20000 \<longrightarrow>
           createdAt y < 20000 \<and> (\<forall>x \<in> set (getActiveSessions ex_db_ten 20000 ''u1''). createdAt y < createdAt x)) \<longrightarrow>
       length (getActiveSessions s' 20000 ''u1'') = 10"
    by blast
  from this[rule_format, of "()" "snd ?st" 604800] run ex_env_ttl(2) pos ex_db_ten_ids ex_db_ten_live ex_db_ten_old
  have "length (getActiveSessions (snd ?st) 20000 ''u1'') = 10" by blast
  with f ex_db_ten_live ex_eleventh_evicts_oldest show ?thesis by simp
qed

end
